theory Spec2Isabelle
  imports Main "HOL-Library.Word"
begin

section \<open>The Python tracing module of uftrace (python/trace-python.c)\<close>

text \<open>
  A shallow embedding of \<^verbatim>\<open>python/trace-python.c\<close>. The C globals of the module are
  the fields of the record \<open>proc\<close>; what lives outside the process (shared memory objects,
  files, the environment, the hooks of libmcount) is the record \<open>world\<close>. A C function
  \<open>f(args)\<close> becomes \<open>f args p w\<close> and returns either \<open>Inr (value, p', w')\<close> or
  \<open>Inl (error, w')\<close> when the process dies inside it: \<open>pr_err\<close> prints and exits
  (\<open>Fatal\<close>), a NULL or out-of-mapping access is a signal (\<open>Fault\<close>).
  C strings are the characters before the terminating NUL.
\<close>

subsection \<open>Machine integers and printf conversions\<close>

type_synonym u32 = "32 word"

definition NUL :: char where
  "NUL = CHR 0x00"

definition NL :: char where
  "NL = CHR 0x0A"

definition hex_digit :: "nat \<Rightarrow> char" where
  "hex_digit d = ''0123456789abcdef'' ! d"

definition dec_digit :: "nat \<Rightarrow> char" where
  "dec_digit d = ''0123456789'' ! d"

text \<open>The conversion \<^verbatim>\<open>%x\<close> of an unsigned value.\<close>

fun fmt_x :: "nat \<Rightarrow> string" where
  "fmt_x n = (if n < 16 then [hex_digit n] else fmt_x (n div 16) @ [hex_digit (n mod 16)])"

text \<open>The conversion \<^verbatim>\<open>%u\<close> (and \<^verbatim>\<open>%d\<close> of a value that is not negative).\<close>

fun fmt_u :: "nat \<Rightarrow> string" where
  "fmt_u n = (if n < 10 then [dec_digit n] else fmt_u (n div 10) @ [dec_digit (n mod 10)])"

declare fmt_x.simps [simp del]
declare fmt_u.simps [simp del]

text \<open>The conversion \<^verbatim>\<open>%016x\<close> of a 32-bit unsigned: at least 16 digits, padded with zeros.\<close>

definition fmt_016x :: "u32 \<Rightarrow> string" where
  "fmt_016x c = replicate (16 - length (fmt_x (unat c))) (CHR ''0'') @ fmt_x (unat c)"

text \<open>The format \<^verbatim>\<open>"%016x %c %s\n"\<close> of a symbol line (lines 207 and 253).\<close>

definition sym_line :: "u32 \<Rightarrow> char \<Rightarrow> string \<Rightarrow> string" where
  "sym_line addr kind name = fmt_016x addr @ '' '' @ [kind] @ '' '' @ name @ [NL]"

text \<open>
  An \<^verbatim>\<open>int\<close> is kept as its 32-bit pattern and read with \<open>sint\<close>; passing it where a
  \<^verbatim>\<open>size_t\<close> is expected converts it modulo \<open>2 ^ 64\<close>.
\<close>

definition size_t_of_int :: "u32 \<Rightarrow> nat" where
  "size_t_of_int i = (if 0 \<le> sint i then nat (sint i) else nat (2 ^ 64 + sint i))"

text \<open>
  \<^verbatim>\<open>snprintf(buf, size, ...)\<close> stores at most \<open>size - 1\<close> characters of the formatted text
  and then a NUL; with \<open>size = 0\<close> it stores nothing.
\<close>

definition snprintf :: "nat \<Rightarrow> string \<Rightarrow> char list" where
  "snprintf sz text = (if sz = 0 then [] else take (sz - 1) text @ [NUL])"

text \<open>The C string held by a buffer: the characters before the first NUL.\<close>

definition c_string :: "char list \<Rightarrow> string" where
  "c_string buf = takeWhile (\<lambda>c. c \<noteq> NUL) buf"

subsection \<open>Constants\<close>

definition UFTRACE_PYTHON_SYMTAB_SIZE :: nat where
  "UFTRACE_PYTHON_SYMTAB_SIZE = 1 * 1024 * 1024"

definition UFTRACE_PYTHON_SYMTAB_HDRSZ :: nat where
  "UFTRACE_PYTHON_SYMTAB_HDRSZ = 48"

text \<open>
  \<^verbatim>\<open>UFTRACE_PYTHON_SYMTAB_NAME\<close> and \<^verbatim>\<open>UFTRACE_DIR_NAME\<close> come from \<^verbatim>\<open>uftrace.h\<close>:
  they are parameters of the functions that use them, as is the choice between the
  \<^verbatim>\<open>HAVE_LIBPYTHON3\<close> and the \<^verbatim>\<open>HAVE_LIBPYTHON2\<close> build.
\<close>

record build_consts =
  SYMTAB_NAME :: string
  DIR_NAME :: string
  HAVE_LIBPYTHON3 :: bool

subsection \<open>Shared memory, files and the process\<close>

text \<open>
  \<^verbatim>\<open>union uftrace_python_symtab\<close>: \<open>val\<close> is the pair of \<open>count\<close> and \<open>offset\<close>, so
  comparing and swapping \<open>val\<close> is comparing and swapping the record.
\<close>

record symtab_hdr =
  count :: u32
  offset :: u32

text \<open>
  A POSIX shared memory object: its length (set by \<^verbatim>\<open>ftruncate\<close>), the header word at
  its start, and its bytes by offset from the start. The header word is kept in its own
  field; the entries start at offset \<open>UFTRACE_PYTHON_SYMTAB_HDRSZ\<close>.
\<close>

record shm_object =
  shm_len :: nat
  hdr :: symtab_hdr
  bytes :: "nat \<Rightarrow> char"

definition shm_empty :: shm_object where
  "shm_empty = \<lparr>shm_len = 0, hdr = \<lparr>count = 0, offset = 0\<rparr>, bytes = (\<lambda>_. NUL)\<rparr>"

text \<open>\<^verbatim>\<open>ftruncate\<close> on the object: what is cut off is lost, what is added reads as zero.\<close>

definition shm_truncate :: "nat \<Rightarrow> shm_object \<Rightarrow> shm_object" where
  "shm_truncate n ob =
     \<lparr>shm_len = n,
      hdr = (if n < 8 then \<lparr>count = 0, offset = 0\<rparr> else hdr ob),
      bytes = (\<lambda>i. if i < n then bytes ob i else NUL)\<rparr>"

definition store_bytes :: "(nat \<Rightarrow> char) \<Rightarrow> nat \<Rightarrow> char list \<Rightarrow> (nat \<Rightarrow> char)" where
  "store_bytes m off cs = (\<lambda>i. if off \<le> i \<and> i < off + length cs then cs ! (i - off) else m i)"

definition load_bytes :: "(nat \<Rightarrow> char) \<Rightarrow> nat \<Rightarrow> nat \<Rightarrow> char list" where
  "load_bytes m off n = map m [off..<off + n]"

datatype error = Fatal | Fault

datatype hook_call = Enter nat nat | Exit nat nat

text \<open>The pointer \<open>symtab\<close>: NULL, a live mapping of a named object, or a mapping that was unmapped.\<close>

datatype map_ptr = NULL | Mapped string | Unmapped string

text \<open>
  The cache of code objects: the nodes of the tree \<open>code_tree\<close>, each a
  \<^verbatim>\<open>struct uftrace_python_symbol\<close> with its left and right links.
\<close>

datatype rb_node = RB_NULL | RB_Node rb_node nat u32 rb_node

record world =
  pid :: nat
  environ :: "string \<rightharpoonup> string"
  shm_objects :: "string \<rightharpoonup> shm_object"
  files :: "string \<rightharpoonup> string"
  hook_calls :: "hook_call list"
  warnings :: "string list"
  shm_open_ret :: int
  ftruncate_fails :: bool
  mmap_fails :: bool
  mremap_fails :: bool
  fopen_fails :: bool
  fwrite_ret :: "nat \<Rightarrow> nat"
  proc_maps :: "(nat \<times> string) option list option"
  elf_symbols :: "string \<rightharpoonup> (string \<times> nat) list"
  module_found :: bool

record proc =
  uftrace_shmem_name :: string
  uftrace_shmem_fd :: int
  uftrace_symtab_size :: u32
  skip_first_frame :: bool
  symtab :: map_ptr
  code_tree :: rb_node
  cygprof_enter :: nat
  cygprof_exit :: nat
  first_frame :: "nat option"
  debug :: bool
  open_fds :: "int \<rightharpoonup> string"

type_synonym 'a res = "(error \<times> world) + ('a \<times> proc \<times> world)"

text \<open>The state of the globals when the module is loaded: static storage is zero.\<close>

definition proc_init :: proc where
  "proc_init =
     \<lparr>uftrace_shmem_name = [], uftrace_shmem_fd = 0, uftrace_symtab_size = 0,
      skip_first_frame = False, symtab = NULL, code_tree = RB_NULL,
      cygprof_enter = 0, cygprof_exit = 0, first_frame = None,
      debug = False, open_fds = Map.empty\<rparr>"

subsection \<open>System calls on the shared memory object\<close>

text \<open>
  \<^verbatim>\<open>ftruncate(uftrace_shmem_fd, n)\<close>: fails on a descriptor that is not open, or when the
  system refuses; else it resizes the object the descriptor names.
\<close>

definition ftruncate :: "nat \<Rightarrow> proc \<Rightarrow> world \<Rightarrow> world option" where
  "ftruncate n p w =
     (if ftruncate_fails w then None
      else case open_fds p (uftrace_shmem_fd p) of
             None \<Rightarrow> None
           | Some nm \<Rightarrow>
               (case shm_objects w nm of
                  None \<Rightarrow> None
                | Some ob \<Rightarrow> Some (w\<lparr>shm_objects := (shm_objects w)(nm \<mapsto> shm_truncate n ob)\<rparr>)))"

text \<open>
  \<^verbatim>\<open>mremap(symtab, old_size, new_size, MREMAP_MAYMOVE)\<close>: the content of the object is
  untouched; the call fails (EINVAL) when \<open>new_size\<close> is zero, or when the system refuses.
\<close>

definition mremap_ok :: "nat \<Rightarrow> world \<Rightarrow> bool" where
  "mremap_ok new_size w = (new_size \<noteq> 0 \<and> \<not> mremap_fails w)"

text \<open>
  An access to the bytes \<open>[off, off + n)\<close> through \<open>symtab\<close> is good when the pointer is a
  live mapping and the bytes are inside both the mapping and the object.
\<close>

definition mapped_object :: "proc \<Rightarrow> world \<Rightarrow> (string \<times> shm_object) option" where
  "mapped_object p w =
     (case symtab p of
        Mapped nm \<Rightarrow> (case shm_objects w nm of None \<Rightarrow> None | Some ob \<Rightarrow> Some (nm, ob))
      | _ \<Rightarrow> None)"

definition in_mapping :: "proc \<Rightarrow> shm_object \<Rightarrow> nat \<Rightarrow> nat \<Rightarrow> bool" where
  "in_mapping p ob off n =
     (off + n \<le> unat (uftrace_symtab_size p) \<and> off + n \<le> shm_len ob)"

subsection \<open>Shared symbol table\<close>

text \<open>\<^verbatim>\<open>init_symtab\<close> (lines 143-163).\<close>

definition init_symtab :: "proc \<Rightarrow> world \<Rightarrow> unit res" where
  "init_symtab p w =
     (let nm = c_string (snprintf 32 (''/uftrace-python-'' @ fmt_u (pid w)));
          p1 = p\<lparr>uftrace_shmem_name := nm\<rparr>;
          fd = shm_open_ret w;
          p2 = p1\<lparr>uftrace_shmem_fd := fd\<rparr>
      in if fd < 0 then Inl (Fatal, w)
         else
           let w1 = w\<lparr>shm_objects := (shm_objects w)(nm \<mapsto> shm_empty)\<rparr>;
               p3 = p2\<lparr>open_fds := (open_fds p2)(fd \<mapsto> nm)\<rparr>
           in case ftruncate UFTRACE_PYTHON_SYMTAB_SIZE p3 w1 of
                None \<Rightarrow> Inl (Fatal, w1)
              | Some w2 \<Rightarrow>
                  if mmap_fails w2 then Inl (Fatal, w2)
                  else
                    (case shm_objects w2 nm of
                       None \<Rightarrow> Inl (Fault, w2)
                     | Some ob \<Rightarrow>
                         let p4 = p3\<lparr>symtab := Mapped nm\<rparr>;
                             ob' = ob\<lparr>hdr := \<lparr>count = 0,
                                               offset = word_of_nat UFTRACE_PYTHON_SYMTAB_HDRSZ\<rparr>\<rparr>;
                             w3 = w2\<lparr>shm_objects := (shm_objects w2)(nm \<mapsto> ob')\<rparr>;
                             p5 = p4\<lparr>uftrace_symtab_size :=
                                       word_of_nat UFTRACE_PYTHON_SYMTAB_SIZE\<rparr>
                         in Inr ((), p5, w3)))"

text \<open>
  \<^verbatim>\<open>__sync_val_compare_and_swap(&symtab->val, old, new)\<close> on the header word \<open>cur\<close>:
  the word afterwards, and the value returned.
\<close>

definition sync_val_compare_and_swap ::
  "symtab_hdr \<Rightarrow> symtab_hdr \<Rightarrow> symtab_hdr \<Rightarrow> symtab_hdr \<times> symtab_hdr" where
  "sync_val_compare_and_swap cur old new = (if cur = old then (new, cur) else (cur, cur))"

text \<open>\<^verbatim>\<open>int entry_size = strlen(name) + 20\<close> (line 169).\<close>

definition entry_size :: "string \<Rightarrow> u32" where
  "entry_size name = word_of_nat (length name + 20)"

text \<open>The candidate header of lines 175-176.\<close>

definition next_hdr :: "symtab_hdr \<Rightarrow> u32 \<Rightarrow> symtab_hdr" where
  "next_hdr old esz = \<lparr>count = count old + 1, offset = offset old + esz\<rparr>"

text \<open>
  The loop of lines 174-184, run by one process while no other process touches the
  header: from the header word \<open>cur\<close> and the value \<open>old\<close> read before, the header word
  afterwards with the final \<open>old_hdr\<close> and \<open>new_hdr\<close>.
\<close>

function reserve :: "u32 \<Rightarrow> symtab_hdr \<Rightarrow> symtab_hdr \<Rightarrow> symtab_hdr \<times> symtab_hdr \<times> symtab_hdr" where
  "reserve esz cur old =
     (let new = next_hdr old esz;
          r = sync_val_compare_and_swap cur old new
      in if snd r = old then (fst r, old, new) else reserve esz (fst r) (snd r))"
  by pat_completeness auto
termination
  by (relation "measure (\<lambda>(esz, cur, old). if cur = old then 0 else 1)")
     (auto simp: sync_val_compare_and_swap_def split: if_splits)

declare reserve.simps [simp del]

text \<open>The growth step (lines 186-204).\<close>

definition grow_symtab :: "symtab_hdr \<Rightarrow> proc \<Rightarrow> world \<Rightarrow> unit res" where
  "grow_symtab new p w =
     (if uftrace_symtab_size p \<le> offset new then
        let new_symtab_size = uftrace_symtab_size p + word_of_nat UFTRACE_PYTHON_SYMTAB_SIZE
        in case ftruncate (unat new_symtab_size) p w of
             None \<Rightarrow> Inl (Fatal, w)
           | Some w1 \<Rightarrow>
               if \<not> mremap_ok (unat new_symtab_size) w1 then Inl (Fatal, w1)
               else Inr ((), p\<lparr>uftrace_symtab_size := new_symtab_size\<rparr>, w1)
      else Inr ((), p, w))"

text \<open>The kind character of line 208.\<close>

definition kind_char :: "bool \<Rightarrow> char" where
  "kind_char is_pyfunc = (if is_pyfunc then CHR ''T'' else CHR ''t'')"

text \<open>The bytes that the \<^verbatim>\<open>snprintf\<close> of line 207 stores at \<open>data + old_hdr.offset\<close>.\<close>

definition entry_bytes :: "symtab_hdr \<Rightarrow> string \<Rightarrow> bool \<Rightarrow> char list" where
  "entry_bytes new name is_pyfunc =
     snprintf (size_t_of_int (entry_size name + 1))
       (sym_line (count new) (kind_char is_pyfunc) name)"

text \<open>Writing the entry and returning its address (lines 206-209).\<close>

definition write_entry ::
  "symtab_hdr \<Rightarrow> symtab_hdr \<Rightarrow> string \<Rightarrow> bool \<Rightarrow> proc \<Rightarrow> world \<Rightarrow> u32 res" where
  "write_entry old new name is_pyfunc p w =
     (let cs = entry_bytes new name is_pyfunc;
          off = unat (offset old)
      in case mapped_object p w of
           None \<Rightarrow> Inl (Fault, w)
         | Some (nm, ob) \<Rightarrow>
             if cs \<noteq> [] \<and> \<not> in_mapping p ob off (length cs) then Inl (Fault, w)
             else Inr (count new, p,
                       w\<lparr>shm_objects :=
                           (shm_objects w)(nm \<mapsto> ob\<lparr>bytes := store_bytes (bytes ob) off cs\<rparr>)\<rparr>))"

text \<open>\<^verbatim>\<open>get_new_sym_addr\<close> (lines 165-210), in a process that runs alone.\<close>

definition get_new_sym_addr :: "string \<Rightarrow> bool \<Rightarrow> proc \<Rightarrow> world \<Rightarrow> u32 res" where
  "get_new_sym_addr name is_pyfunc p w =
     (case mapped_object p w of
        None \<Rightarrow> Inl (Fault, w)
      | Some (nm, ob) \<Rightarrow>
          if \<not> in_mapping p ob 0 8 then Inl (Fault, w)
          else
            let r = reserve (entry_size name) (hdr ob) (hdr ob);
                old_hdr = fst (snd r);
                new_hdr = snd (snd r);
                w1 = w\<lparr>shm_objects := (shm_objects w)(nm \<mapsto> ob\<lparr>hdr := fst r\<rparr>)\<rparr>
            in case grow_symtab new_hdr p w1 of
                 Inl e \<Rightarrow> Inl e
               | Inr (u, p1, w2) \<Rightarrow> write_entry old_hdr new_hdr name is_pyfunc p1 w2)"

text \<open>
  The copy loop of lines 242-250. \<open>fw n\<close> is what \<^verbatim>\<open>fwrite\<close> returns when asked for \<open>n\<close>
  bytes (never more than \<open>n\<close>); \<open>lim\<close> is the end of the readable bytes; \<open>out\<close> is the
  file so far; only the bytes that \<^verbatim>\<open>fwrite\<close> hands on are taken as read, and reading
  one past \<open>lim\<close> is a fault. The loop need not end: it is a partial function.
\<close>

partial_function (option) copy_loop ::
  "(nat \<Rightarrow> nat) \<Rightarrow> (nat \<Rightarrow> char) \<Rightarrow> nat \<Rightarrow> nat \<Rightarrow> u32 \<Rightarrow> string \<Rightarrow> ((error \<times> string) + string) option" where
  "copy_loop fw mem lim buf len out =
     (if len = 0 then Some (Inr out)
      else
        let n = min (fw (unat len)) (unat len)
        in if lim < buf + n then Some (Inl (Fault, out))
           else
             let out' = out @ load_bytes mem buf n;
                 sz = (word_of_nat n :: u32)
             in if sint sz < 0 then Some (Inl (Fatal, out'))
                else copy_loop fw mem lim (buf + n) (len - sz) out')"

text \<open>The conversion \<^verbatim>\<open>%*s\<close> of the empty string: a negative width pads on the other side.\<close>

definition fmt_star_empty :: "u32 \<Rightarrow> string" where
  "fmt_star_empty width = replicate (nat \<bar>sint width\<bar>) (CHR '' '')"

text \<open>
  The header comment of lines 231-233 for \<open>cnt\<close> symbols, with the \<open>len\<close> the three
  \<^verbatim>\<open>fprintf\<close> add up to (\<^verbatim>\<open>fprintf\<close> is taken to succeed, the stream being buffered).
\<close>

definition header_comment :: "build_consts \<Rightarrow> u32 \<Rightarrow> string \<times> u32" where
  "header_comment K cnt =
     (let l1 = ''# symbols: '' @ fmt_u (unat cnt) @ [NL];
          l2 = ''# path name: '' @ SYMTAB_NAME K @ [NL];
          len = (word_of_nat (length l1) + word_of_nat (length l2) :: u32);
          l3 = ''#'' @ fmt_star_empty (word_of_nat UFTRACE_PYTHON_SYMTAB_HDRSZ - 2 - len) @ [NL]
      in (l1 @ l2 @ l3, len + word_of_nat (length l3)))"

text \<open>
  \<^verbatim>\<open>write_symtab\<close> (lines 212-259). The result is \<open>None\<close> when the copy loop does not
  end.
\<close>

definition write_symtab :: "build_consts \<Rightarrow> string \<Rightarrow> proc \<Rightarrow> world \<Rightarrow> unit res option" where
  "write_symtab K dirname p w =
     (let filename = dirname @ ''/'' @ SYMTAB_NAME K @ ''.sym''
      in if fopen_fails w then
           Some (Inr ((), p,
                      w\<lparr>warnings := warnings w @ [''writing symbol table of python program failed'']\<rparr>))
         else
           let w1 = w\<lparr>files := (files w)(filename \<mapsto> [])\<rparr>
           in case mapped_object p w1 of
                None \<Rightarrow> Some (Inl (Fault, w1))
              | Some (nm, ob) \<Rightarrow>
                  if \<not> in_mapping p ob 0 8 then Some (Inl (Fault, w1))
                  else
                    let hc = header_comment K (count (hdr ob));
                        w2 = (if snd hc \<noteq> word_of_nat UFTRACE_PYTHON_SYMTAB_HDRSZ
                              then w1\<lparr>warnings := warnings w1 @ [''symbol header size should be 64'']\<rparr>
                              else w1);
                        len = offset (hdr ob) - word_of_nat UFTRACE_PYTHON_SYMTAB_HDRSZ
                    in case copy_loop (fwrite_ret w2) (bytes ob)
                              (min (unat (uftrace_symtab_size p)) (shm_len ob))
                              UFTRACE_PYTHON_SYMTAB_HDRSZ len (fst hc) of
                         None \<Rightarrow> None
                       | Some (Inl (e, out)) \<Rightarrow>
                           Some (Inl (e, w2\<lparr>files := (files w2)(filename \<mapsto> out)\<rparr>))
                       | Some (Inr out) \<Rightarrow>
                           let out' = out @ sym_line (count (hdr ob) + 1) (CHR ''?'') ''__sym_end'';
                               w3 = w2\<lparr>files := (files w2)(filename \<mapsto> out')\<rparr>;
                               p1 = p\<lparr>symtab := Unmapped nm\<rparr>;
                               p2 = p1\<lparr>open_fds := (open_fds p1)(uftrace_shmem_fd p1 := None)\<rparr>;
                               w4 = w3\<lparr>shm_objects :=
                                         (shm_objects w3)(uftrace_shmem_name p2 := None)\<rparr>
                           in Some (Inr ((), p2, w4)))"

subsection \<open>Initialisation and the hooks of libmcount\<close>

text \<open>\<^verbatim>\<open>basename\<close>: what follows the last slash of a path.\<close>

definition basename :: "string \<Rightarrow> string" where
  "basename path = rev (takeWhile (\<lambda>c. c \<noteq> CHR ''/'') (rev path))"

text \<open>
  \<^verbatim>\<open>find_cygprof_funcs\<close> (lines 90-113). The symbol table of the ELF file is the list of
  its names and values (\<open>elf_symbols\<close>: nothing when \<^verbatim>\<open>elf_init\<close> fails); an address is
  an \<^verbatim>\<open>unsigned long\<close>.
\<close>

definition set_cygprof :: "nat \<Rightarrow> string \<times> nat \<Rightarrow> proc \<Rightarrow> proc" where
  "set_cygprof base_addr es p =
     (let p1 = (if fst es = ''__cyg_profile_func_enter''
                then p\<lparr>cygprof_enter := (snd es + base_addr) mod 2 ^ 64\<rparr> else p)
      in if fst es = ''__cyg_profile_func_exit''
         then p1\<lparr>cygprof_exit := (snd es + base_addr) mod 2 ^ 64\<rparr> else p1)"

definition find_cygprof_funcs :: "string \<Rightarrow> nat \<Rightarrow> proc \<Rightarrow> world \<Rightarrow> proc" where
  "find_cygprof_funcs filename base_addr p w =
     (case elf_symbols w filename of
        None \<Rightarrow> p
      | Some syms \<Rightarrow> fold (set_cygprof base_addr) syms p)"

text \<open>
  The loop of \<^verbatim>\<open>find_libmcount_funcs\<close> (lines 124-137) over the lines of
  \<^verbatim>\<open>/proc/self/maps\<close>: a line is its start address and its path, or nothing when
  \<^verbatim>\<open>sscanf\<close> does not find the four fields.
\<close>

fun scan_maps :: "(nat \<times> string) option list \<Rightarrow> proc \<Rightarrow> world \<Rightarrow> proc" where
  "scan_maps [] p w = p"
| "scan_maps (None # ls) p w = scan_maps ls p w"
| "scan_maps (Some (start, path) # ls) p w =
     (if take 9 (basename path) \<noteq> ''libmcount'' then scan_maps ls p w
      else find_cygprof_funcs path start p w)"

definition find_libmcount_funcs :: "proc \<Rightarrow> world \<Rightarrow> proc" where
  "find_libmcount_funcs p w =
     (case proc_maps w of None \<Rightarrow> p | Some ls \<Rightarrow> scan_maps ls p w)"

text \<open>\<^verbatim>\<open>init_uftrace\<close> (lines 261-274).\<close>

definition init_uftrace :: "proc \<Rightarrow> world \<Rightarrow> unit res" where
  "init_uftrace p w =
     (if environ w ''UFTRACE_SHMEM'' = None then Inr ((), p, w)
      else
        let p1 = (if environ w ''UFTRACE_DEBUG'' \<noteq> None then p\<lparr>debug := True\<rparr> else p)
        in case init_symtab p1 w of
             Inl e \<Rightarrow> Inl e
           | Inr (u, p2, w2) \<Rightarrow> Inr ((), find_libmcount_funcs p2 w2, w2))"

text \<open>
  The module initialisers (lines 348-371 and 376-393); \<open>created\<close> tells whether
  \<^verbatim>\<open>PyModule_Create\<close> or \<^verbatim>\<open>Py_InitModule\<close> gave a module. The result tells whether a
  module is returned.
\<close>

definition PyInit_uftrace_python :: "bool \<Rightarrow> proc \<Rightarrow> world \<Rightarrow> bool res" where
  "PyInit_uftrace_python created p w =
     (if \<not> created then Inr (False, p, w)
      else
        let p1 = p\<lparr>skip_first_frame := True\<rparr>
        in case init_uftrace p1 w of
             Inl e \<Rightarrow> Inl e
           | Inr (u, p2, w2) \<Rightarrow> Inr (True, p2, w2))"

definition inituftrace_python :: "bool \<Rightarrow> proc \<Rightarrow> world \<Rightarrow> bool res" where
  "inituftrace_python created p w =
     (if \<not> created then Inr (False, p, w)
      else
        case init_uftrace p w of
          Inl e \<Rightarrow> Inl e
        | Inr (u, p2, w2) \<Rightarrow> Inr (True, p2, w2))"

subsection \<open>Python objects and the names of functions\<close>

text \<open>
  What the module reads of a Python object. A reference is the address of the object
  paired with the object; the address alone is the identity the cache compares.
  An attribute holding a name is a string when it is there. \<open>pyval\<close> is an object as
  \<^verbatim>\<open>is_string_type\<close> sees it.
\<close>

datatype pyval = PyStr string | PyNotStr

datatype pyobj =
    PyCode "string option" "string option"
  | PyCFunction "string option" string "pyval option"
  | PyOther

type_synonym pyref = "nat \<times> pyobj"

record pyframe =
  frame_addr :: nat
  f_code :: "pyref option"
  f_globals :: "(string \<rightharpoonup> pyval) option"

text \<open>
  \<^verbatim>\<open>PyObject_GetAttrString\<close> on the attributes the module asks for: a code object has
  \<open>co_qualname\<close> (from Python 3.11) and \<open>co_name\<close>.
\<close>

fun getattr_name :: "pyobj \<Rightarrow> string \<Rightarrow> string option" where
  "getattr_name (PyCode qualname name) a =
     (if a = ''co_qualname'' then qualname else if a = ''co_name'' then name else None)"
| "getattr_name (PyCFunction qualname name m) a =
     (if a = ''__qualname__'' then qualname else if a = ''__name__'' then Some name else None)"
| "getattr_name PyOther a = None"

text \<open>\<^verbatim>\<open>get_python_funcname\<close> (lines 413-445).\<close>

definition get_python_funcname :: "pyframe \<Rightarrow> pyobj \<Rightarrow> string option" where
  "get_python_funcname frame code =
     (let name = (case getattr_name code ''co_qualname'' of
                    Some q \<Rightarrow> Some q
                  | None \<Rightarrow> getattr_name code ''co_name'');
          func_name =
            (case f_globals frame of
               None \<Rightarrow> None
             | Some global \<Rightarrow>
                 (case name of
                    None \<Rightarrow> None
                  | Some name_str \<Rightarrow>
                      (case global ''__name__'' of
                         Some (PyStr mod_str) \<Rightarrow>
                           if mod_str \<noteq> ''__main__'' \<or> name_str = ''<module>''
                           then Some (mod_str @ ''.'' @ name_str) else None
                       | _ \<Rightarrow> None)))
      in case func_name of Some f \<Rightarrow> Some f | None \<Rightarrow> name)"

text \<open>\<^verbatim>\<open>get_c_funcname\<close> (lines 447-473).\<close>

fun get_c_funcname :: "pyframe \<Rightarrow> pyobj \<Rightarrow> string option" where
  "get_c_funcname frame (PyCFunction qualname name m_module) =
     (let name_str = (case qualname of Some q \<Rightarrow> q | None \<Rightarrow> name)
      in case m_module of
           Some (PyStr mod_str) \<Rightarrow> Some (mod_str @ ''.'' @ name_str)
         | _ \<Rightarrow> Some (''builtins'' @ ''.'' @ name_str))"
| "get_c_funcname frame code = None"

subsection \<open>The cache of code objects\<close>

text \<open>The search loop of lines 492-506: the address stored for \<open>code\<close>, if a node has it.\<close>

fun rb_find :: "rb_node \<Rightarrow> nat \<Rightarrow> u32 option" where
  "rb_find RB_NULL code = None"
| "rb_find (RB_Node l c a r) code =
     (if c = code then Some a
      else if c < code then rb_find l code
      else rb_find r code)"

text \<open>
  \<^verbatim>\<open>rb_link_node(&new->node, parent, p)\<close> (line 523): the new node is hung on the link
  where the search loop stopped.
\<close>

fun rb_link_node :: "rb_node \<Rightarrow> nat \<Rightarrow> u32 \<Rightarrow> rb_node" where
  "rb_link_node RB_NULL code addr = RB_Node RB_NULL code addr RB_NULL"
| "rb_link_node (RB_Node l c a r) code addr =
     (if c < code then RB_Node (rb_link_node l code addr) c a r
      else RB_Node l c a (rb_link_node r code addr))"

text \<open>
  Modelled from the spec: \<^verbatim>\<open>rb_insert_color\<close> is in \<^verbatim>\<open>utils/rbtree.c\<close>. The spec asks
  of the cache only an ordered map keyed by identity ("any balanced ordered map keyed by
  raw identity value suffices"): rebalancing changes the shape of the tree and neither
  its nodes nor their order, which is all the search loop reads. The model keeps the
  shape.
\<close>

definition rb_insert_color :: "rb_node \<Rightarrow> rb_node" where
  "rb_insert_color t = t"

text \<open>\<^verbatim>\<open>convert_function_addr\<close> (lines 475-527).\<close>

definition convert_function_addr :: "pyframe \<Rightarrow> pyref \<Rightarrow> bool \<Rightarrow> proc \<Rightarrow> world \<Rightarrow> nat res" where
  "convert_function_addr frame args is_pyfunc p w =
     (case f_code frame of
        None \<Rightarrow> Inr (0, p, w)
      | Some fc \<Rightarrow>
          let code = (if is_pyfunc then fc else args)
          in case rb_find (code_tree p) (fst code) of
               Some a \<Rightarrow> Inr (unat a, p, w)
             | None \<Rightarrow>
                 (case (if is_pyfunc then get_python_funcname frame (snd code)
                        else get_c_funcname frame (snd code)) of
                    None \<Rightarrow> Inr (0, p, w)
                  | Some func_name \<Rightarrow>
                      (case get_new_sym_addr func_name is_pyfunc p w of
                         Inl e \<Rightarrow> Inl e
                       | Inr (addr, p1, w1) \<Rightarrow>
                           Inr (unat addr,
                                p1\<lparr>code_tree :=
                                     rb_insert_color (rb_link_node (code_tree p1) (fst code) addr)\<rparr>,
                                w1))))"

subsection \<open>The trace function\<close>

text \<open>What the trace function returns to the interpreter.\<close>

datatype pyret = Py_None | Trace_Function

text \<open>The arguments of the trace function: a tuple \<open>(frame, event, arg)\<close>, or anything else.\<close>

datatype pyargs = Args pyframe string pyref | BadArgs

text \<open>
  \<^verbatim>\<open>get_trace_function\<close> (lines 322-335, and 395-399 for Python 2);
  \<open>module_found\<close> is whether \<^verbatim>\<open>PyState_FindModule\<close> finds the module.
\<close>

definition get_trace_function :: "build_consts \<Rightarrow> world \<Rightarrow> pyret" where
  "get_trace_function K w =
     (if HAVE_LIBPYTHON3 K \<and> \<not> module_found w then Py_None else Trace_Function)"

text \<open>A call through a hook pointer: NULL is a fault, else libmcount sees the call.\<close>

definition call_hook :: "nat \<Rightarrow> hook_call \<Rightarrow> world \<Rightarrow> (error \<times> world) + world" where
  "call_hook fp c w =
     (if fp = 0 then Inl (Fault, w) else Inr (w\<lparr>hook_calls := hook_calls w @ [c]\<rparr>))"

text \<open>
  The dispatch on the event (lines 547-562): an enter event resolves the address and
  calls the enter hook, an exit event or an exception in C code calls the exit hook.
\<close>

definition trace_event ::
  "build_consts \<Rightarrow> pyframe \<Rightarrow> string \<Rightarrow> pyref \<Rightarrow> proc \<Rightarrow> world \<Rightarrow> pyret res" where
  "trace_event K frame event args_tuple p w =
     (if event = ''call'' \<or> event = ''c_call'' then
        let is_pyfunc = (event = ''call'')
        in case convert_function_addr frame args_tuple is_pyfunc p w of
             Inl e \<Rightarrow> Inl e
           | Inr (addr, p2, w2) \<Rightarrow>
               (case call_hook (cygprof_enter p2) (Enter addr 0) w2 of
                  Inl e \<Rightarrow> Inl e
                | Inr w3 \<Rightarrow> Inr (get_trace_function K w3, p2, w3))
      else if event = ''return'' \<or> event = ''c_return'' then
        (case call_hook (cygprof_exit p) (Exit 0 0) w of
           Inl e \<Rightarrow> Inl e
         | Inr w3 \<Rightarrow> Inr (get_trace_function K w3, p, w3))
      else if event = ''c_exception'' then
        (case call_hook (cygprof_exit p) (Exit 0 0) w of
           Inl e \<Rightarrow> Inl e
         | Inr w3 \<Rightarrow> Inr (get_trace_function K w3, p, w3))
      else Inr (get_trace_function K w, p, w))"

text \<open>\<^verbatim>\<open>uftrace_trace_python\<close> (lines 532-563); \<open>first_frame\<close> is its static variable.\<close>

definition uftrace_trace_python :: "build_consts \<Rightarrow> pyargs \<Rightarrow> proc \<Rightarrow> world \<Rightarrow> pyret res" where
  "uftrace_trace_python K a p w =
     (case a of
        BadArgs \<Rightarrow> Inr (Py_None, p, w)
      | Args frame event args_tuple \<Rightarrow>
          let p1 = (if first_frame p = None then p\<lparr>first_frame := Some (frame_addr frame)\<rparr>
                    else p)
          in if skip_first_frame p1 \<and> Some (frame_addr frame) = first_frame p1
             then Inr (Py_None, p1, w)
             else trace_event K frame event args_tuple p1 w)"

text \<open>\<^verbatim>\<open>uftrace_trace_python_finish\<close>, the destructor (lines 565-574).\<close>

definition uftrace_trace_python_finish :: "build_consts \<Rightarrow> proc \<Rightarrow> world \<Rightarrow> unit res option" where
  "uftrace_trace_python_finish K p w =
     (let dirname = (case environ w ''UFTRACE_DIR'' of None \<Rightarrow> DIR_NAME K | Some d \<Rightarrow> d)
      in write_symtab K dirname p w)"

subsection \<open>A system to run the module in\<close>

text \<open>
  A process with libmcount loaded, in a uftrace session, where no system call fails and
  \<^verbatim>\<open>fwrite\<close> writes all it is given.
\<close>

definition test_world :: world where
  "test_world =
     \<lparr>pid = 1234,
      environ = [''UFTRACE_SHMEM'' \<mapsto> ''1''],
      shm_objects = Map.empty,
      files = Map.empty,
      hook_calls = [],
      warnings = [],
      shm_open_ret = 3,
      ftruncate_fails = False,
      mmap_fails = False,
      mremap_fails = False,
      fopen_fails = False,
      fwrite_ret = (\<lambda>n. n),
      proc_maps = Some [None, Some (4096, ''/usr/lib/libmcount.so'')],
      elf_symbols = [''/usr/lib/libmcount.so'' \<mapsto>
                       [(''__cyg_profile_func_enter'', 256), (''__cyg_profile_func_exit'', 512)]],
      module_found = True\<rparr>"

definition test_consts :: build_consts where
  "test_consts = \<lparr>SYMTAB_NAME = ''python.fake'', DIR_NAME = ''uftrace.data'',
                   HAVE_LIBPYTHON3 = True\<rparr>"

text \<open>The state of that process after \<^verbatim>\<open>PyInit_uftrace_python\<close>.\<close>

definition test_proc :: proc where
  "test_proc =
     \<lparr>uftrace_shmem_name = ''/uftrace-python-1234'',
      uftrace_shmem_fd = 3,
      uftrace_symtab_size = 1048576,
      skip_first_frame = True,
      symtab = Mapped ''/uftrace-python-1234'',
      code_tree = RB_NULL,
      cygprof_enter = 4352,
      cygprof_exit = 4608,
      first_frame = None,
      debug = False,
      open_fds = [3 \<mapsto> ''/uftrace-python-1234'']\<rparr>"

definition test_shm :: shm_object where
  "test_shm = \<lparr>shm_len = 1048576, hdr = \<lparr>count = 0, offset = 48\<rparr>, bytes = (\<lambda>i. NUL)\<rparr>"

definition test_started :: world where
  "test_started = test_world\<lparr>shm_objects := [''/uftrace-python-1234'' \<mapsto> test_shm]\<rparr>"

text \<open>
  Frames and events: the frame of \<^verbatim>\<open>builtins.exec\<close> that the interpreter enters first,
  a frame of the function \<open>foo\<close> of the module \<open>mymod\<close>, the builtin \<open>len\<close>, and an
  object that is no C function.
\<close>

definition root_frame :: pyframe where
  "root_frame =
     \<lparr>frame_addr = 100,
      f_code = Some (10, PyCode (Some ''<module>'') (Some ''<module>'')),
      f_globals = Some [''__name__'' \<mapsto> PyStr ''__main__'']\<rparr>"

definition foo_frame :: pyframe where
  "foo_frame =
     \<lparr>frame_addr = 200,
      f_code = Some (20, PyCode (Some ''foo'') (Some ''foo'')),
      f_globals = Some [''__name__'' \<mapsto> PyStr ''mymod'']\<rparr>"

definition len_func :: pyref where
  "len_func = (30, PyCFunction (Some ''len'') ''len'' (Some (PyStr ''builtins'')))"


definition py_none :: pyref where
  "py_none = (50, PyOther)"

subsection \<open>Notions used to state the properties\<close>

text \<open>
  An invocation of the trace function is skipped when its arguments do not parse
  (lines 538-539) or when it carries the first frame while \<open>skip_first_frame\<close> is set
  (lines 541-545).
\<close>

definition skipped :: "pyargs \<Rightarrow> proc \<Rightarrow> bool" where
  "skipped a p =
     (case a of
        BadArgs \<Rightarrow> True
      | Args fr ev x \<Rightarrow>
          skip_first_frame p \<and> (first_frame p = None \<or> first_frame p = Some (frame_addr fr)))"

text \<open>
  The symbol table of a process that runs alone: \<open>symtab\<close> is a live mapping of the
  object behind the descriptor and the name, the mapping covers the whole object, its size is a
  positive multiple of the unit, and the next position to write lies after the header and
  inside the mapping.
\<close>

definition symtab_inv :: "proc \<Rightarrow> world \<Rightarrow> bool" where
  "symtab_inv p w =
     (case mapped_object p w of
        None \<Rightarrow> False
      | Some (nm, ob) \<Rightarrow>
          open_fds p (uftrace_shmem_fd p) = Some nm \<and>
          uftrace_shmem_name p = nm \<and>
          shm_len ob = unat (uftrace_symtab_size p) \<and>
          uftrace_symtab_size p \<noteq> 0 \<and>
          UFTRACE_PYTHON_SYMTAB_SIZE dvd unat (uftrace_symtab_size p) \<and>
          UFTRACE_PYTHON_SYMTAB_HDRSZ \<le> unat (offset (hdr ob)) \<and>
          unat (offset (hdr ob)) < unat (uftrace_symtab_size p))"

text \<open>
  Allocations one after the other, as the test case of lines 596-598 makes them: the
  addresses returned, in order.
\<close>

fun alloc_all :: "(string \<times> bool) list \<Rightarrow> proc \<Rightarrow> world \<Rightarrow> u32 list res" where
  "alloc_all [] p w = Inr ([], p, w)"
| "alloc_all (r # rs) p w =
     (case get_new_sym_addr (fst r) (snd r) p w of
        Inl e \<Rightarrow> Inl e
      | Inr (a, p1, w1) \<Rightarrow>
          (case alloc_all rs p1 w1 of
             Inl e \<Rightarrow> Inl e
           | Inr (as, p2, w2) \<Rightarrow> Inr (a # as, p2, w2)))"

text \<open>
  The lines of the entries for the names \<open>rs\<close>, each with its kind, when \<open>c\<close> entries
  came before: they are numbered from \<open>c + 1\<close>.
\<close>

fun table_text :: "u32 \<Rightarrow> (string \<times> bool) list \<Rightarrow> string" where
  "table_text c [] = []"
| "table_text c (r # rs) = sym_line (c + 1) (kind_char (snd r)) (fst r) @ table_text (c + 1) rs"

text \<open>
  The table holds the entries of \<open>hist\<close>: the process runs alone, the count is their
  number, and their lines lie one after the other from the end of the header up to the
  next position to write.
\<close>

definition table_holds :: "proc \<Rightarrow> world \<Rightarrow> (string \<times> bool) list \<Rightarrow> bool" where
  "table_holds p w hist =
     (symtab_inv p w \<and>
      (case mapped_object p w of
         None \<Rightarrow> False
       | Some (nm, ob) \<Rightarrow>
           count (hdr ob) = word_of_nat (length hist) \<and>
           unat (offset (hdr ob)) = UFTRACE_PYTHON_SYMTAB_HDRSZ + length (table_text 0 hist) \<and>
           load_bytes (bytes ob) UFTRACE_PYTHON_SYMTAB_HDRSZ (length (table_text 0 hist))
             = table_text 0 hist))"

text \<open>
  The test case \<^verbatim>\<open>python_symtab\<close> (lines 587-599), up to \<^verbatim>\<open>write_symtab\<close>: the three
  addresses it compares with 1, 2 and 3, and the state it leaves. It runs outside a
  uftrace session.
\<close>

definition python_symtab_case ::
  "build_consts \<Rightarrow> proc \<Rightarrow> world \<Rightarrow> (u32 \<times> u32 \<times> u32) res option" where
  "python_symtab_case K p w =
     (case init_uftrace p w of
        Inl e \<Rightarrow> Some (Inl e)
      | Inr (u, p0, w0) \<Rightarrow>
     (case init_symtab p0 w0 of
        Inl e \<Rightarrow> Some (Inl e)
      | Inr (u, p1, w1) \<Rightarrow>
     (case get_new_sym_addr ''a'' True p1 w1 of
        Inl e \<Rightarrow> Some (Inl e)
      | Inr (a1, p2, w2) \<Rightarrow>
     (case get_new_sym_addr ''b'' True p2 w2 of
        Inl e \<Rightarrow> Some (Inl e)
      | Inr (a2, p3, w3) \<Rightarrow>
     (case get_new_sym_addr ''c'' False p3 w3 of
        Inl e \<Rightarrow> Some (Inl e)
      | Inr (a3, p4, w4) \<Rightarrow>
     (case write_symtab K ''.'' p4 w4 of
        None \<Rightarrow> None
      | Some (Inl e) \<Rightarrow> Some (Inl e)
      | Some (Inr (u, p5, w5)) \<Rightarrow> Some (Inr ((a1, a2, a3), p5, w5))))))))"

definition unit_test_world :: world where
  "unit_test_world = test_world\<lparr>environ := Map.empty\<rparr>"

text \<open>
  The identity that \<^verbatim>\<open>convert_function_addr\<close> looks up (lines 483-490): the address of
  the code object of the frame for a Python function, of the argument for a C function;
  none when the frame has no code object.
\<close>

definition identity :: "pyframe \<Rightarrow> pyref \<Rightarrow> bool \<Rightarrow> nat option" where
  "identity frame args is_pyfunc =
     (case f_code frame of
        None \<Rightarrow> None
      | Some fc \<Rightarrow> Some (fst (if is_pyfunc then fc else args)))"

text \<open>The keys of the tree from left to right, and the order the search loop relies on.\<close>

fun rb_keys :: "rb_node \<Rightarrow> nat list" where
  "rb_keys RB_NULL = []"
| "rb_keys (RB_Node l c a r) = rb_keys l @ c # rb_keys r"

fun rb_ordered :: "rb_node \<Rightarrow> bool" where
  "rb_ordered RB_NULL = True"
| "rb_ordered (RB_Node l c a r) =
     (rb_ordered l \<and> rb_ordered r \<and>
      list_all (\<lambda>x. c < x) (rb_keys l) \<and> list_all (\<lambda>x. x < c) (rb_keys r))"

subsection \<open>Processes that share the symbol table\<close>

text \<open>
  \<^verbatim>\<open>get_new_sym_addr\<close> in the steps that another process can come between: the read of
  the header (line 171), one turn of the compare-and-swap loop (lines 175-183), the
  growth step (lines 186-204) and the write of the entry (lines 207-209). A process is at
  one of these steps, with its \<open>old_hdr\<close> and \<open>new_hdr\<close>, or has returned.
\<close>

datatype alloc_pc =
    At_read
  | At_cas symtab_hdr
  | At_grow symtab_hdr symtab_hdr
  | At_write symtab_hdr symtab_hdr
  | Returned u32

definition alloc_step :: "string \<Rightarrow> bool \<Rightarrow> alloc_pc \<Rightarrow> proc \<Rightarrow> world \<Rightarrow> alloc_pc res" where
  "alloc_step name is_pyfunc pc p w =
     (case pc of
        At_read \<Rightarrow>
          (case mapped_object p w of
             None \<Rightarrow> Inl (Fault, w)
           | Some (nm, ob) \<Rightarrow>
               if \<not> in_mapping p ob 0 8 then Inl (Fault, w) else Inr (At_cas (hdr ob), p, w))
      | At_cas old \<Rightarrow>
          (case mapped_object p w of
             None \<Rightarrow> Inl (Fault, w)
           | Some (nm, ob) \<Rightarrow>
               let new = next_hdr old (entry_size name);
                   r = sync_val_compare_and_swap (hdr ob) old new;
                   w1 = w\<lparr>shm_objects := (shm_objects w)(nm \<mapsto> ob\<lparr>hdr := fst r\<rparr>)\<rparr>
               in if snd r = old then Inr (At_grow old new, p, w1)
                  else Inr (At_cas (snd r), p, w1))
      | At_grow old new \<Rightarrow>
          (case grow_symtab new p w of
             Inl e \<Rightarrow> Inl e
           | Inr (u, p1, w1) \<Rightarrow> Inr (At_write old new, p1, w1))
      | At_write old new \<Rightarrow>
          (case write_entry old new name is_pyfunc p w of
             Inl e \<Rightarrow> Inl e
           | Inr (a, p1, w1) \<Rightarrow> Inr (Returned a, p1, w1))
      | Returned a \<Rightarrow> Inr (Returned a, p, w))"

text \<open>A number of steps of one process, with no other process in between.\<close>

fun alloc_steps :: "nat \<Rightarrow> string \<Rightarrow> bool \<Rightarrow> alloc_pc \<Rightarrow> proc \<Rightarrow> world \<Rightarrow> alloc_pc res" where
  "alloc_steps 0 name is_pyfunc pc p w = Inr (pc, p, w)"
| "alloc_steps (Suc n) name is_pyfunc pc p w =
     (case alloc_step name is_pyfunc pc p w of
        Inl e \<Rightarrow> Inl e
      | Inr (pc1, p1, w1) \<Rightarrow> alloc_steps n name is_pyfunc pc1 p1 w1)"

text \<open>
  Two processes, each in a call of \<^verbatim>\<open>get_new_sym_addr\<close>, on one world: the schedule tells
  which of the two makes the next step (\<open>True\<close> for the first).
\<close>

fun interleave ::
  "bool list \<Rightarrow> string \<times> bool \<Rightarrow> string \<times> bool \<Rightarrow> alloc_pc \<times> proc \<Rightarrow> alloc_pc \<times> proc \<Rightarrow> world
     \<Rightarrow> (error \<times> world) + ((alloc_pc \<times> proc) \<times> (alloc_pc \<times> proc) \<times> world)" where
  "interleave [] ra rb a b w = Inr (a, b, w)"
| "interleave (True # s) ra rb a b w =
     (case alloc_step (fst ra) (snd ra) (fst a) (snd a) w of
        Inl e \<Rightarrow> Inl e
      | Inr (pc, p, w1) \<Rightarrow> interleave s ra rb (pc, p) b w1)"
| "interleave (False # s) ra rb a b w =
     (case alloc_step (fst rb) (snd rb) (fst b) (snd b) w of
        Inl e \<Rightarrow> Inl e
      | Inr (pc, p, w1) \<Rightarrow> interleave s ra rb a (pc, p) w1)"

text \<open>The entries as the file would get them: the bytes of the object from the end of the header up to its offset.\<close>

definition table_bytes :: "world \<Rightarrow> string \<Rightarrow> char list option" where
  "table_bytes w nm =
     (case shm_objects w nm of
        None \<Rightarrow> None
      | Some ob \<Rightarrow>
          Some (load_bytes (bytes ob) UFTRACE_PYTHON_SYMTAB_HDRSZ
                  (unat (offset (hdr ob)) - UFTRACE_PYTHON_SYMTAB_HDRSZ)))"

subsection \<open>A parent and the child it forked\<close>




section \<open>Properties\<close>

subsection \<open>What a call leaves alone\<close>

lemma reserve_alone: "reserve esz h h = (next_hdr h esz, h, next_hdr h esz)"
  by (subst reserve.simps) (simp add: sync_val_compare_and_swap_def Let_def)

lemma grow_symtab_frame:
  "grow_symtab new p w = Inr (u, p', w') \<Longrightarrow>
     p' = p\<lparr>uftrace_symtab_size := uftrace_symtab_size p'\<rparr> \<and> w' = w\<lparr>shm_objects := shm_objects w'\<rparr>"
  by (auto simp: grow_symtab_def ftruncate_def Let_def split: if_splits option.splits)

lemma write_entry_frame:
  "write_entry old new name k p w = Inr (a, p', w') \<Longrightarrow>
     p' = p \<and> w' = w\<lparr>shm_objects := shm_objects w'\<rparr>"
  by (auto simp: write_entry_def Let_def split: if_splits option.splits)

lemma get_new_sym_addr_frame:
  assumes "get_new_sym_addr name k p w = Inr (a, p', w')"
  shows "p' = p\<lparr>uftrace_symtab_size := uftrace_symtab_size p'\<rparr> \<and> w' = w\<lparr>shm_objects := shm_objects w'\<rparr>"
proof -
  from assms obtain nm ob p1 w2 u where
    g: "grow_symtab (next_hdr (hdr ob) (entry_size name)) p
          (w\<lparr>shm_objects := (shm_objects w)(nm \<mapsto> ob\<lparr>hdr := next_hdr (hdr ob) (entry_size name)\<rparr>)\<rparr>) = Inr (u, p1, w2)"
    and wr: "write_entry (hdr ob) (next_hdr (hdr ob) (entry_size name)) name k p1 w2 = Inr (a, p', w')"
    by (auto simp: get_new_sym_addr_def reserve_alone Let_def split: option.splits if_splits sum.splits)
  from grow_symtab_frame[OF g] write_entry_frame[OF wr] show ?thesis
    by (metis (no_types, lifting) world.surjective world.update_convs(3))
qed

lemma convert_function_addr_frame:
  assumes "convert_function_addr fr a k p w = Inr (r, p', w')"
  shows "p' = p\<lparr>uftrace_symtab_size := uftrace_symtab_size p', code_tree := code_tree p'\<rparr>
         \<and> w' = w\<lparr>shm_objects := shm_objects w'\<rparr>"
  using assms
  apply (simp add: convert_function_addr_def Let_def split: option.splits sum.splits prod.splits)
  apply (auto dest!: get_new_sym_addr_frame)
  done

lemma world_frameD:
  assumes "w' = w\<lparr>shm_objects := s\<rparr>"
  shows "module_found w' = module_found w" and "hook_calls w' = hook_calls w"
    and "files w' = files w" and "warnings w' = warnings w" and "environ w' = environ w"
    and "fwrite_ret w' = fwrite_ret w" and "fopen_fails w' = fopen_fails w"
    and "ftruncate_fails w' = ftruncate_fails w" and "mremap_fails w' = mremap_fails w"
    and "mmap_fails w' = mmap_fails w" and "pid w' = pid w"
  using assms by simp_all

lemma proc_frameD:
  assumes "p' = p\<lparr>uftrace_symtab_size := s, code_tree := t\<rparr>"
  shows "skip_first_frame p' = skip_first_frame p" and "first_frame p' = first_frame p"
    and "cygprof_enter p' = cygprof_enter p" and "cygprof_exit p' = cygprof_exit p"
    and "symtab p' = symtab p" and "open_fds p' = open_fds p"
    and "uftrace_shmem_fd p' = uftrace_shmem_fd p"
    and "uftrace_shmem_name p' = uftrace_shmem_name p" and "debug p' = debug p"
  using assms by simp_all

lemma convert_function_addr_world:
  assumes "convert_function_addr fr a k p w = Inr (r, p', w')"
  shows "module_found w' = module_found w" and "hook_calls w' = hook_calls w"
    and "files w' = files w" and "warnings w' = warnings w"
  using convert_function_addr_frame[OF assms]
    world_frameD[where w' = w' and w = w and s = "shm_objects w'"] by simp_all

lemma convert_function_addr_proc:
  assumes "convert_function_addr fr a k p w = Inr (r, p', w')"
  shows "skip_first_frame p' = skip_first_frame p" and "first_frame p' = first_frame p"
    and "cygprof_enter p' = cygprof_enter p" and "cygprof_exit p' = cygprof_exit p"
  using convert_function_addr_frame[OF assms]
    proc_frameD[where p' = p' and p = p and s = "uftrace_symtab_size p'" and t = "code_tree p'"]
  by simp_all

subsection \<open>The trace function, case by case\<close>

lemma skipped_Args:
  "skipped (Args fr ev x) p =
     (skip_first_frame p \<and> (first_frame p = None \<or> first_frame p = Some (frame_addr fr)))"
  by (simp add: skipped_def)

lemma trace_python_not_skipped:
  assumes "\<not> skipped (Args fr ev x) p"
  shows "uftrace_trace_python K (Args fr ev x) p w =
           trace_event K fr ev x
             (if first_frame p = None then p\<lparr>first_frame := Some (frame_addr fr)\<rparr> else p) w"
proof (cases "first_frame p = None")
  case True
  with assms have "\<not> skip_first_frame p" by (simp add: skipped_Args)
  with True show ?thesis
    unfolding uftrace_trace_python_def Let_def by simp
next
  case False
  then obtain r where r: "first_frame p = Some r" by auto
  with assms have "\<not> skip_first_frame p \<or> frame_addr fr \<noteq> r"
    by (auto simp add: skipped_Args)
  with r show ?thesis
    unfolding uftrace_trace_python_def Let_def by auto
qed

lemma trace_event_result:
  assumes "trace_event K fr ev x p w = Inr (r, p', w')"
  shows "r = get_trace_function K w"
  using assms
  by (auto simp: trace_event_def Let_def call_hook_def get_trace_function_def
           split: if_splits sum.splits dest: convert_function_addr_world(1))

lemma trace_python_skipped:
  assumes "skipped (Args fr ev x) p"
  shows "uftrace_trace_python K (Args fr ev x) p w =
           Inr (Py_None, p\<lparr>first_frame := Some (frame_addr fr)\<rparr>, w)"
proof (cases "first_frame p")
  case None
  with assms show ?thesis
    unfolding uftrace_trace_python_def Let_def by (simp add: skipped_Args)
next
  case (Some r)
  with assms have "skip_first_frame p" "r = frame_addr fr" by (auto simp: skipped_Args)
  with Some have "p\<lparr>first_frame := Some (frame_addr fr)\<rparr> = p" by simp
  with Some \<open>skip_first_frame p\<close> \<open>r = frame_addr fr\<close> show ?thesis
    unfolding uftrace_trace_python_def Let_def by simp
qed

lemma trace_python_result:
  assumes "uftrace_trace_python K a p w = Inr (r, p', w')"
  shows "r = (if skipped a p then Py_None else get_trace_function K w)"
proof (cases a)
  case BadArgs
  with assms show ?thesis by (simp add: uftrace_trace_python_def skipped_def)
next
  case (Args fr ev x)
  show ?thesis
  proof (cases "skipped a p")
    case True
    with assms Args show ?thesis
      by (simp add: trace_python_skipped)
  next
    case False
    with assms Args show ?thesis
      by (auto simp: trace_python_not_skipped dest: trace_event_result)
  qed
qed

subsection \<open>The test system, evaluated\<close>

lemma fmt_u_1234: "fmt_u 1234 = ''1234''"
  by (simp add: fmt_u.simps dec_digit_def)

lemma test_shmem_name:
  "c_string (snprintf 32 (''/uftrace-python-'' @ fmt_u 1234)) = ''/uftrace-python-1234''"
  by (simp add: fmt_u_1234 snprintf_def c_string_def NUL_def)

lemma shm_truncate_empty:
  "8 \<le> n \<Longrightarrow> shm_truncate n shm_empty = \<lparr>shm_len = n, hdr = \<lparr>count = 0, offset = 0\<rparr>, bytes = (\<lambda>i. NUL)\<rparr>"
  by (auto simp: shm_truncate_def shm_empty_def fun_eq_iff)

lemma test_world_simps:
  "pid test_world = 1234" "environ test_world ''UFTRACE_SHMEM'' = Some ''1''"
  "environ test_world ''UFTRACE_DEBUG'' = None" "environ test_world ''UFTRACE_DIR'' = None"
  "shm_open_ret test_world = 3"
  "\<not> ftruncate_fails test_world" "\<not> mmap_fails test_world" "\<not> mremap_fails test_world"
  "\<not> fopen_fails test_world" "fwrite_ret test_world = (\<lambda>n. n)" "module_found test_world"
  "shm_objects test_world = Map.empty" "hook_calls test_world = []" "files test_world = Map.empty"
  "warnings test_world = []"
  by (simp_all add: test_world_def)

lemma test_init_symtab:
  "init_symtab (proc_init\<lparr>skip_first_frame := True\<rparr>) test_world =
     Inr ((), test_proc\<lparr>cygprof_enter := 0, cygprof_exit := 0\<rparr>, test_started)"
  by (simp add: init_symtab_def test_world_simps fmt_u_1234 snprintf_def c_string_def NUL_def
        ftruncate_def Let_def
        shm_truncate_empty UFTRACE_PYTHON_SYMTAB_SIZE_def UFTRACE_PYTHON_SYMTAB_HDRSZ_def)
     (simp add: proc_init_def test_proc_def test_started_def test_shm_def NUL_def)

lemma test_find_libmcount:
  "find_libmcount_funcs (test_proc\<lparr>cygprof_enter := 0, cygprof_exit := 0\<rparr>) test_started = test_proc"
  by (simp add: find_libmcount_funcs_def test_started_def test_world_def test_proc_def
        basename_def find_cygprof_funcs_def set_cygprof_def)

lemma test_PyInit:
  "PyInit_uftrace_python True proc_init test_world = Inr (True, test_proc, test_started)"
  by (simp add: PyInit_uftrace_python_def init_uftrace_def test_init_symtab test_find_libmcount
        test_world_simps)


lemma test_proc_simps:
  "skip_first_frame test_proc" "first_frame test_proc = None" "cygprof_enter test_proc = 4352"
  "cygprof_exit test_proc = 4608" "code_tree test_proc = RB_NULL"
  "symtab test_proc = Mapped ''/uftrace-python-1234''"
  "uftrace_symtab_size test_proc = 1048576" "uftrace_shmem_fd test_proc = 3"
  "uftrace_shmem_name test_proc = ''/uftrace-python-1234''"
  "open_fds test_proc = [3 \<mapsto> ''/uftrace-python-1234'']"
  by (simp_all add: test_proc_def)

lemma test_started_simps:
  "module_found test_started" "hook_calls test_started = []"
  "shm_objects test_started = [''/uftrace-python-1234'' \<mapsto> test_shm]"
  "\<not> ftruncate_fails test_started" "\<not> mremap_fails test_started"
  "\<not> fopen_fails test_started" "fwrite_ret test_started = (\<lambda>n. n)"
  "files test_started = Map.empty" "warnings test_started = []"
  "environ test_started ''UFTRACE_DIR'' = None"
  by (simp_all add: test_started_def test_world_def)

subsection \<open>What the trace function returns\<close>

text \<open>
  C8 (amended). An invocation of the trace function that returns gives None when it is
  skipped (its arguments do not parse, or it carries the first frame while
  \<open>skip_first_frame\<close> is set), and also when the Python 3 build does not find its
  module; every other invocation gives the trace function.
\<close>

theorem trace_returns_function_unless_skipped:
  assumes "uftrace_trace_python K a p w = Inr (r, p', w')"
  shows "r = (if skipped a p \<or> HAVE_LIBPYTHON3 K \<and> \<not> module_found w then Py_None
              else Trace_Function)"
  using trace_python_result[OF assms] by (auto simp: get_trace_function_def)

text \<open>
  C8 as stated fails: the first event of a traced Python 3 program is skipped, and the
  trace function returns None for it.
\<close>

theorem root_event_returns_none:
  "uftrace_trace_python test_consts (Args root_frame ''call'' py_none) test_proc test_started =
     Inr (Py_None, test_proc\<lparr>first_frame := Some 100\<rparr>, test_started)"
  by (simp add: trace_python_skipped skipped_Args test_proc_simps root_frame_def)

text \<open>A return event on another frame: the exit hook is called and the trace function returned.\<close>

theorem trace_returns_function_witness:
  "uftrace_trace_python test_consts (Args foo_frame ''return'' py_none)
       (test_proc\<lparr>first_frame := Some 100\<rparr>) test_started =
     Inr (Trace_Function, test_proc\<lparr>first_frame := Some 100\<rparr>,
          test_started\<lparr>hook_calls := [Exit 0 0]\<rparr>)
   \<and> Trace_Function =
       (if skipped (Args foo_frame ''return'' py_none) (test_proc\<lparr>first_frame := Some 100\<rparr>)
           \<or> HAVE_LIBPYTHON3 test_consts \<and> \<not> module_found test_started
        then Py_None else Trace_Function)"
proof -
  have ns: "\<not> skipped (Args foo_frame ''return'' py_none) (test_proc\<lparr>first_frame := Some 100\<rparr>)"
    by (simp add: skipped_Args foo_frame_def)
  have run: "uftrace_trace_python test_consts (Args foo_frame ''return'' py_none)
       (test_proc\<lparr>first_frame := Some 100\<rparr>) test_started =
     Inr (Trace_Function, test_proc\<lparr>first_frame := Some 100\<rparr>,
          test_started\<lparr>hook_calls := [Exit 0 0]\<rparr>)"
    by (simp add: trace_python_not_skipped[OF ns] trace_event_def call_hook_def
          get_trace_function_def test_proc_simps test_started_simps)
  from trace_returns_function_unless_skipped[OF run] run show ?thesis by simp
qed

subsection \<open>An enter event without a name\<close>





subsection \<open>Formats and sizes\<close>

lemma fmt_x_length: "n < 16 ^ k \<Longrightarrow> 0 < k \<Longrightarrow> length (fmt_x n) \<le> k"
proof (induction n arbitrary: k rule: fmt_x.induct)
  case (1 n)
  show ?case
  proof (cases "n < 16")
    case True
    then show ?thesis using 1(3) by (subst fmt_x.simps) simp
  next
    case False
    from 1(3) obtain k' where k': "k = Suc k'" by (cases k) auto
    with False 1(2) have "0 < k'" by (cases k') auto
    from 1(2) k' have "n div 16 < 16 ^ k'"
      by (simp add: less_mult_imp_div_less mult.commute)
    from 1(1)[OF False this \<open>0 < k'\<close>] False k' show ?thesis
      by (subst fmt_x.simps) simp
  qed
qed

lemma length_fmt_016x: "length (fmt_016x c) = 16"
proof -
  have "unat c < 2 ^ 32" using unsigned_less[of c] by simp
  then have "unat c < 16 ^ 8" by simp
  then have "length (fmt_x (unat c)) \<le> 8" by (rule fmt_x_length) simp
  then show ?thesis by (simp add: fmt_016x_def)
qed

lemma length_sym_line: "length (sym_line c kind name) = length name + 20"
  by (simp add: sym_line_def length_fmt_016x)

lemma unat_of_nat_u32: "n < 2 ^ 32 \<Longrightarrow> unat (word_of_nat n :: u32) = n"
  by (simp add: unat_of_nat)

lemma sint_of_nat_u32:
  assumes "n < 2 ^ 31"
  shows "sint (word_of_nat n :: u32) = int n"
proof -
  have "sint (word_of_nat n :: u32) = signed_take_bit 31 (int n)"
    by (simp add: signed_of_nat)
  also have "\<dots> = int n"
    using assms by (intro signed_take_bit_int_eq_self) simp_all
  finally show ?thesis .
qed

lemma entry_size_unat: "length name + 20 < 2 ^ 32 \<Longrightarrow> unat (entry_size name) = length name + 20"
  unfolding entry_size_def by (rule unat_of_nat_u32)

lemma size_t_entry_size:
  assumes "length name + 21 < 2 ^ 31"
  shows "size_t_of_int (entry_size name + 1) = length name + 21"
proof -
  have e: "entry_size name + 1 = word_of_nat (length name + 21)"
    by (simp add: entry_size_def)
  show ?thesis
    unfolding size_t_of_int_def e sint_of_nat_u32[OF assms] by simp
qed

lemma entry_bytes_eq:
  assumes "length name + 21 < 2 ^ 31"
  shows "entry_bytes new name k = sym_line (count new) (kind_char k) name @ [NUL]"
  by (simp add: entry_bytes_def size_t_entry_size[OF assms] snprintf_def length_sym_line)

lemma grow_no_wrap:
  fixes s :: u32
  assumes "UFTRACE_PYTHON_SYMTAB_SIZE dvd unat s"
    and "s + word_of_nat UFTRACE_PYTHON_SYMTAB_SIZE \<noteq> 0"
  shows "unat (s + word_of_nat UFTRACE_PYTHON_SYMTAB_SIZE) = unat s + UFTRACE_PYTHON_SYMTAB_SIZE"
proof -
  let ?c = "word_of_nat UFTRACE_PYTHON_SYMTAB_SIZE :: u32"
  have c: "unat ?c = 1048576"
    by (simp add: UFTRACE_PYTHON_SYMTAB_SIZE_def)
  have lt: "unat s < 4294967296" using unsigned_less[of s] by simp
  from assms(1) have d: "1048576 dvd unat s" by (simp add: UFTRACE_PYTHON_SYMTAB_SIZE_def)
  from d obtain k where k: "unat s = 1048576 * k" by (auto simp: dvd_def)
  have "1048576 * k < 1048576 * (4096::nat)" using lt k by simp
  then have k4: "k < 4096" by (simp only: nat_mult_less_cancel_disj)
  have "k \<noteq> 4095"
  proof
    assume "k = 4095"
    with k have "unat s = 4293918720" by simp
    then have "unat (s + ?c) = 0"
      using c by (simp add: unat_plus_if')
    then have "s + ?c = 0" by (simp add: unat_eq_0)
    with assms(2) show False by simp
  qed
  with k4 have "k + 1 < 4096" by simp
  then have "1048576 * (k + 1) < 1048576 * (4096::nat)"
    by (simp only: nat_mult_less_cancel_disj) simp
  then have "unat s + 1048576 < 4294967296" using k by simp
  then show ?thesis using c
    by (simp add: unat_plus_if' UFTRACE_PYTHON_SYMTAB_SIZE_def)
qed

subsection \<open>Bytes\<close>

lemma store_bytes_below: "i < off \<Longrightarrow> store_bytes m off cs i = m i"
  by (simp add: store_bytes_def)

lemma load_store_bytes:
  "load_bytes (store_bytes m off (xs @ ys)) off (length xs) = xs"
proof (rule nth_equalityI)
  show "length (load_bytes (store_bytes m off (xs @ ys)) off (length xs)) = length xs"
    by (simp add: load_bytes_def)
next
  fix i assume "i < length (load_bytes (store_bytes m off (xs @ ys)) off (length xs))"
  then have "i < length xs" by (simp add: load_bytes_def)
  then show "load_bytes (store_bytes m off (xs @ ys)) off (length xs) ! i = xs ! i"
    by (simp add: load_bytes_def store_bytes_def nth_append)
qed

lemma load_bytes_cong:
  "(\<And>i. off \<le> i \<Longrightarrow> i < off + n \<Longrightarrow> m i = m' i) \<Longrightarrow> load_bytes m off n = load_bytes m' off n"
  by (simp add: load_bytes_def)

lemma load_bytes_add:
  "load_bytes m off (n + k) = load_bytes m off n @ load_bytes m (off + n) k"
proof -
  have "[off..<off + n + k] = [off..<off + n] @ [off + n..<off + n + k]"
    by (rule upt_add_eq_append) simp
  then show ?thesis
    by (simp add: load_bytes_def add.assoc)
qed


subsection \<open>One allocation in a process that runs alone\<close>

lemma mapped_objectD:
  "mapped_object p w = Some (nm, ob) \<Longrightarrow> symtab p = Mapped nm \<and> shm_objects w nm = Some ob"
  by (auto simp: mapped_object_def split: map_ptr.splits option.splits)

lemma mapped_objectI:
  "symtab p = Mapped nm \<Longrightarrow> shm_objects w nm = Some ob \<Longrightarrow> mapped_object p w = Some (nm, ob)"
  by (simp add: mapped_object_def)

lemma grow_symtab_alone:
  assumes mo: "mapped_object p w = Some (nm, ob)"
    and fd: "open_fds p (uftrace_shmem_fd p) = Some nm"
    and len: "shm_len ob = unat (uftrace_symtab_size p)"
    and dv: "UFTRACE_PYTHON_SYMTAB_SIZE dvd unat (uftrace_symtab_size p)"
    and nz: "uftrace_symtab_size p \<noteq> 0"
    and g: "grow_symtab new p w = Inr (u, p1, w2)"
  shows "\<exists>ob2. mapped_object p1 w2 = Some (nm, ob2) \<and> hdr ob2 = hdr ob \<and>
           (\<forall>i < shm_len ob. bytes ob2 i = bytes ob i) \<and>
           shm_len ob2 = unat (uftrace_symtab_size p1) \<and>
           unat (uftrace_symtab_size p1) =
             (if uftrace_symtab_size p \<le> offset new
              then unat (uftrace_symtab_size p) + UFTRACE_PYTHON_SYMTAB_SIZE
              else unat (uftrace_symtab_size p)) \<and>
           UFTRACE_PYTHON_SYMTAB_SIZE dvd unat (uftrace_symtab_size p1) \<and>
           uftrace_symtab_size p1 \<noteq> 0 \<and>
           open_fds p1 (uftrace_shmem_fd p1) = Some nm"
proof (cases "uftrace_symtab_size p \<le> offset new")
  case False
  with g have "p1 = p" "w2 = w" by (simp_all add: grow_symtab_def)
  with False mo fd len dv nz show ?thesis by simp
next
  case True
  let ?n = "uftrace_symtab_size p + word_of_nat UFTRACE_PYTHON_SYMTAB_SIZE"
  from mapped_objectD[OF mo] have sy: "symtab p = Mapped nm" and so: "shm_objects w nm = Some ob"
    by simp_all
  from g True fd so have
        w2: "w2 = w\<lparr>shm_objects := (shm_objects w)(nm \<mapsto> shm_truncate (unat ?n) ob)\<rparr>"
    and p1: "p1 = p\<lparr>uftrace_symtab_size := ?n\<rparr>"
    and ok: "mremap_ok (unat ?n) w2"
    by (auto simp: grow_symtab_def ftruncate_def Let_def split: if_splits)
  from ok have "?n \<noteq> 0" by (auto simp: mremap_ok_def unat_eq_0)
  from grow_no_wrap[OF dv this]
  have n: "unat ?n = unat (uftrace_symtab_size p) + UFTRACE_PYTHON_SYMTAB_SIZE" .
  have big: "8 \<le> unat ?n" unfolding n by (simp add: UFTRACE_PYTHON_SYMTAB_SIZE_def)
  have "mapped_object p1 w2 = Some (nm, shm_truncate (unat ?n) ob)"
    by (rule mapped_objectI) (simp_all add: p1 w2 sy)
  moreover have "hdr (shm_truncate (unat ?n) ob) = hdr ob"
    using big by (simp add: shm_truncate_def)
  moreover have "\<forall>i < shm_len ob. bytes (shm_truncate (unat ?n) ob) i = bytes ob i"
    using n len by (simp add: shm_truncate_def)
  moreover have "shm_len (shm_truncate (unat ?n) ob) = unat (uftrace_symtab_size p1)"
    by (simp add: shm_truncate_def p1)
  moreover have "unat (uftrace_symtab_size p1) =
             (if uftrace_symtab_size p \<le> offset new
              then unat (uftrace_symtab_size p) + UFTRACE_PYTHON_SYMTAB_SIZE
              else unat (uftrace_symtab_size p))"
    using True n by (simp add: p1)
  moreover have "UFTRACE_PYTHON_SYMTAB_SIZE dvd unat (uftrace_symtab_size p1)"
    using dv n by (simp add: p1)
  moreover have "uftrace_symtab_size p1 \<noteq> 0" using \<open>?n \<noteq> 0\<close> by (simp add: p1)
  moreover have "open_fds p1 (uftrace_shmem_fd p1) = Some nm" using fd by (simp add: p1)
  ultimately show ?thesis by blast
qed

lemma write_entry_alone:
  assumes mo: "mapped_object p w = Some (nm, ob)"
    and len: "length name + 21 < 2 ^ 31"
    and wr: "write_entry old new name k p w = Inr (a, p', w')"
  shows "a = count new \<and> p' = p \<and>
         in_mapping p ob (unat (offset old)) (length name + 21) \<and>
         mapped_object p' w' =
           Some (nm, ob\<lparr>bytes := store_bytes (bytes ob) (unat (offset old))
                                   (sym_line (count new) (kind_char k) name @ [NUL])\<rparr>)"
proof -
  let ?cs = "sym_line (count new) (kind_char k) name @ [NUL]"
  from mapped_objectD[OF mo] have sy: "symtab p = Mapped nm" by simp
  have cs: "entry_bytes new name k = ?cs" by (rule entry_bytes_eq[OF len])
  have lcs: "length ?cs = length name + 21" by (simp add: length_sym_line)
  from wr have wr': "(if \<not> in_mapping p ob (unat (offset old)) (length ?cs) then Inl (Fault, w)
             else Inr (count new, p,
                       w\<lparr>shm_objects :=
                           (shm_objects w)(nm \<mapsto> ob\<lparr>bytes := store_bytes (bytes ob) (unat (offset old)) ?cs\<rparr>)\<rparr>))
          = Inr (a, p', w')"
    unfolding write_entry_def cs Let_def mo by simp
  then have im: "in_mapping p ob (unat (offset old)) (length ?cs)"
    by (simp split: if_splits)
  with wr' have a: "a = count new" and p': "p' = p"
    and w': "w' = w\<lparr>shm_objects :=
                   (shm_objects w)(nm \<mapsto> ob\<lparr>bytes := store_bytes (bytes ob) (unat (offset old)) ?cs\<rparr>)\<rparr>"
    by auto
  have "mapped_object p' w' =
          Some (nm, ob\<lparr>bytes := store_bytes (bytes ob) (unat (offset old)) ?cs\<rparr>)"
    by (rule mapped_objectI) (simp_all add: p' w' sy)
  with a p' im show ?thesis unfolding lcs by simp
qed

lemma symtab_invD:
  assumes "symtab_inv p w" and "mapped_object p w = Some (nm, ob)"
  shows "open_fds p (uftrace_shmem_fd p) = Some nm"
    and "shm_len ob = unat (uftrace_symtab_size p)"
    and "uftrace_symtab_size p \<noteq> 0"
    and "UFTRACE_PYTHON_SYMTAB_SIZE dvd unat (uftrace_symtab_size p)"
    and "UFTRACE_PYTHON_SYMTAB_HDRSZ \<le> unat (offset (hdr ob))"
    and "unat (offset (hdr ob)) < unat (uftrace_symtab_size p)"
    and "uftrace_shmem_name p = nm"
  using assms by (simp_all add: symtab_inv_def)

lemma symtab_inv_mapped: "symtab_inv p w \<Longrightarrow> \<exists>nm ob. mapped_object p w = Some (nm, ob)"
  by (cases "mapped_object p w") (auto simp: symtab_inv_def)

lemma get_new_sym_addr_alone:
  assumes inv: "symtab_inv p w"
    and mo: "mapped_object p w = Some (nm, ob)"
    and len: "length name + 21 < 2 ^ 31"
    and res: "get_new_sym_addr name k p w = Inr (a, p', w')"
  shows "\<exists>ob'. mapped_object p' w' = Some (nm, ob') \<and> symtab_inv p' w' \<and>
           a = count (hdr ob) + 1 \<and> count (hdr ob') = count (hdr ob) + 1 \<and>
           unat (offset (hdr ob')) = unat (offset (hdr ob)) + (length name + 20) \<and>
           (\<forall>i < unat (offset (hdr ob)). bytes ob' i = bytes ob i) \<and>
           load_bytes (bytes ob') (unat (offset (hdr ob))) (length name + 20) =
             sym_line a (kind_char k) name \<and>
           unat (uftrace_symtab_size p') =
             (if unat (uftrace_symtab_size p) \<le> unat (offset (hdr ob)) + (length name + 20)
              then unat (uftrace_symtab_size p) + UFTRACE_PYTHON_SYMTAB_SIZE
              else unat (uftrace_symtab_size p)) \<and>
           unat (offset (hdr ob)) + (length name + 21) \<le> unat (uftrace_symtab_size p')"
proof -
  let ?old = "hdr ob"
  let ?new = "next_hdr ?old (entry_size name)"
  let ?off = "unat (offset ?old)"
  let ?L = "length name + 20"
  let ?w1 = "w\<lparr>shm_objects := (shm_objects w)(nm \<mapsto> ob\<lparr>hdr := ?new\<rparr>)\<rparr>"
  note i = symtab_invD[OF inv mo]
  from mapped_objectD[OF mo] have sy: "symtab p = Mapped nm" by simp
  have im: "in_mapping p ob 0 8"
    using i(2,5,6) by (simp add: in_mapping_def UFTRACE_PYTHON_SYMTAB_HDRSZ_def)
  from res obtain u p1 w2 where
    g: "grow_symtab ?new p ?w1 = Inr (u, p1, w2)"
    and wr: "write_entry ?old ?new name k p1 w2 = Inr (a, p', w')"
    unfolding get_new_sym_addr_def mo reserve_alone Let_def using im
    by (auto split: sum.splits)
  have mo1: "mapped_object p ?w1 = Some (nm, ob\<lparr>hdr := ?new\<rparr>)"
    by (rule mapped_objectI) (simp_all add: sy)
  from grow_symtab_alone[OF mo1 i(1) _ i(4) i(3) g] i(2)
  obtain ob2 where mo2: "mapped_object p1 w2 = Some (nm, ob2)"
    and h2: "hdr ob2 = ?new"
    and b2: "\<forall>i < shm_len ob. bytes ob2 i = bytes ob i"
    and l2: "shm_len ob2 = unat (uftrace_symtab_size p1)"
    and s2: "unat (uftrace_symtab_size p1) =
             (if uftrace_symtab_size p \<le> offset ?new
              then unat (uftrace_symtab_size p) + UFTRACE_PYTHON_SYMTAB_SIZE
              else unat (uftrace_symtab_size p))"
    and d2: "UFTRACE_PYTHON_SYMTAB_SIZE dvd unat (uftrace_symtab_size p1)"
    and n2: "uftrace_symtab_size p1 \<noteq> 0"
    and f2: "open_fds p1 (uftrace_shmem_fd p1) = Some nm"
    by auto
  let ?cs = "sym_line (count ?new) (kind_char k) name @ [NUL]"
  let ?ob' = "ob2\<lparr>bytes := store_bytes (bytes ob2) ?off ?cs\<rparr>"
  from write_entry_alone[OF mo2 len wr]
  have a: "a = count ?new" and p': "p' = p1"
    and im2: "in_mapping p1 ob2 ?off (length name + 21)"
    and mo': "mapped_object p' w' = Some (nm, ?ob')"
    by blast+
  from im2 have fit: "?off + (length name + 21) \<le> unat (uftrace_symtab_size p1)"
    by (simp add: in_mapping_def)
  have "unat (uftrace_symtab_size p1) < 2 ^ 32"
    using unsigned_less[of "uftrace_symtab_size p1"] by simp
  with fit have small: "?off + ?L < 2 ^ 32" by simp
  then have ue: "unat (entry_size name) = ?L"
    by (intro entry_size_unat) simp
  have uo: "unat (offset ?new) = ?off + ?L"
    using small ue unat_add_lem[of "offset ?old" "entry_size name"]
    by (simp add: next_hdr_def)
  have cnt: "count ?new = count ?old + 1" by (simp add: next_hdr_def)
  have le: "uftrace_symtab_size p \<le> offset ?new \<longleftrightarrow>
            unat (uftrace_symtab_size p) \<le> ?off + ?L"
    by (simp add: word_le_nat_alt uo)
  from get_new_sym_addr_frame[OF res]
  have "p' = p\<lparr>uftrace_symtab_size := uftrace_symtab_size p'\<rparr>" by simp
  from arg_cong[OF this, of uftrace_shmem_name]
  have "uftrace_shmem_name p' = uftrace_shmem_name p" by simp
  then have nm': "uftrace_shmem_name p1 = nm" using i(7) by (simp add: p')
  have inv': "symtab_inv p' w'"
    unfolding symtab_inv_def mo' using f2 l2 n2 d2 h2 uo fit i(5) nm'
    by (simp add: p')
  have below: "\<forall>i < ?off. bytes ?ob' i = bytes ob i"
    using b2 i(2,6) by (simp add: store_bytes_below)
  have line: "load_bytes (bytes ?ob') ?off ?L = sym_line a (kind_char k) name"
    using load_store_bytes[of "bytes ob2" ?off "sym_line (count ?new) (kind_char k) name" "[NUL]"]
    by (simp add: length_sym_line a)
  show ?thesis
    using mo' inv' a cnt h2 uo below line s2 le fit
    by (intro exI[of _ ?ob']) (simp add: p')
qed

lemma size_unit_bound:
  fixes s :: u32
  assumes "UFTRACE_PYTHON_SYMTAB_SIZE dvd unat s"
  shows "unat s + UFTRACE_PYTHON_SYMTAB_SIZE \<le> 2 ^ 32"
proof -
  have lt: "unat s < 4294967296" using unsigned_less[of s] by simp
  from assms obtain k where k: "unat s = 1048576 * k"
    by (auto simp: dvd_def UFTRACE_PYTHON_SYMTAB_SIZE_def)
  have "1048576 * k < 1048576 * (4096::nat)" using lt k by simp
  then have "k < 4096" by (simp only: nat_mult_less_cancel_disj)
  then have "k + 1 \<le> 4096" by simp
  then have "1048576 * (k + 1) \<le> 1048576 * (4096::nat)"
    by (simp only: nat_mult_le_cancel_disj) simp
  then show ?thesis using k by (simp add: UFTRACE_PYTHON_SYMTAB_SIZE_def)
qed

lemma get_new_sym_addr_unfold:
  assumes inv: "symtab_inv p w" and mo: "mapped_object p w = Some (nm, ob)"
  shows "get_new_sym_addr name k p w =
           (case grow_symtab (next_hdr (hdr ob) (entry_size name)) p
                   (w\<lparr>shm_objects :=
                        (shm_objects w)(nm \<mapsto> ob\<lparr>hdr := next_hdr (hdr ob) (entry_size name)\<rparr>)\<rparr>) of
              Inl e \<Rightarrow> Inl e
            | Inr (u, p1, w2) \<Rightarrow>
                write_entry (hdr ob) (next_hdr (hdr ob) (entry_size name)) name k p1 w2)"
proof -
  note i = symtab_invD[OF inv mo]
  have im: "in_mapping p ob 0 8"
    using i(2,5,6) by (simp add: in_mapping_def UFTRACE_PYTHON_SYMTAB_HDRSZ_def)
  show ?thesis
    unfolding get_new_sym_addr_def mo reserve_alone Let_def using im
    by (simp split: sum.splits)
qed

lemma grow_symtab_no_fault: "grow_symtab new p w \<noteq> Inl (Fault, w')"
  by (auto simp: grow_symtab_def Let_def split: option.splits)

lemma unit_no_wrap:
  assumes inv: "symtab_inv p w" and mo: "mapped_object p w = Some (nm, ob)"
    and unit: "length name + 20 \<le> UFTRACE_PYTHON_SYMTAB_SIZE"
  shows "unat (offset (next_hdr (hdr ob) (entry_size name))) =
           unat (offset (hdr ob)) + (length name + 20)"
proof -
  note i = symtab_invD[OF inv mo]
  from size_unit_bound[OF i(4)] i(6) unit
  have small: "unat (offset (hdr ob)) + (length name + 20) < 2 ^ 32" by simp
  then have ue: "unat (entry_size name) = length name + 20"
    by (intro entry_size_unat) simp
  show ?thesis
    using small ue unat_add_lem[of "offset (hdr ob)" "entry_size name"]
    by (simp add: next_hdr_def)
qed

lemma unit_fits_int:
  "length name + 20 \<le> UFTRACE_PYTHON_SYMTAB_SIZE \<Longrightarrow> length name + 21 < 2 ^ 31"
  by (simp add: UFTRACE_PYTHON_SYMTAB_SIZE_def)

lemma get_new_sym_addr_no_fault:
  assumes inv: "symtab_inv p w" and mo: "mapped_object p w = Some (nm, ob)"
    and unit: "length name + 20 \<le> UFTRACE_PYTHON_SYMTAB_SIZE"
  shows "get_new_sym_addr name k p w \<noteq> Inl (Fault, w')"
proof
  let ?old = "hdr ob"
  let ?new = "next_hdr ?old (entry_size name)"
  let ?w1 = "w\<lparr>shm_objects := (shm_objects w)(nm \<mapsto> ob\<lparr>hdr := ?new\<rparr>)\<rparr>"
  note i = symtab_invD[OF inv mo]
  note len = unit_fits_int[OF unit]
  from mapped_objectD[OF mo] have sy: "symtab p = Mapped nm" by simp
  assume "get_new_sym_addr name k p w = Inl (Fault, w')"
  then obtain u p1 w2 where
    g: "grow_symtab ?new p ?w1 = Inr (u, p1, w2)"
    and wr: "write_entry ?old ?new name k p1 w2 = Inl (Fault, w')"
    unfolding get_new_sym_addr_unfold[OF inv mo]
    by (auto split: sum.splits simp: grow_symtab_no_fault)
  have mo1: "mapped_object p ?w1 = Some (nm, ob\<lparr>hdr := ?new\<rparr>)"
    by (rule mapped_objectI) (simp_all add: sy)
  from grow_symtab_alone[OF mo1 i(1) _ i(4) i(3) g] i(2)
  obtain ob2 where mo2: "mapped_object p1 w2 = Some (nm, ob2)"
    and l2: "shm_len ob2 = unat (uftrace_symtab_size p1)"
    and s2: "unat (uftrace_symtab_size p1) =
             (if uftrace_symtab_size p \<le> offset ?new
              then unat (uftrace_symtab_size p) + UFTRACE_PYTHON_SYMTAB_SIZE
              else unat (uftrace_symtab_size p))"
    by auto
  have le: "uftrace_symtab_size p \<le> offset ?new \<longleftrightarrow>
            unat (uftrace_symtab_size p) \<le> unat (offset ?old) + (length name + 20)"
    by (simp add: word_le_nat_alt unit_no_wrap[OF inv mo unit])
  have "unat (offset ?old) + (length name + 21) \<le> unat (uftrace_symtab_size p1)"
    using s2 le i(6) unit by (auto split: if_splits)
  then have "in_mapping p1 ob2 (unat (offset ?old)) (length (entry_bytes ?new name k))"
    by (simp add: in_mapping_def l2 entry_bytes_eq[OF len] length_sym_line)
  with wr show False
    by (simp add: write_entry_def Let_def mo2)
qed

lemma grow_symtab_returns:
  assumes mo: "mapped_object p w = Some (nm, ob)"
    and fd: "open_fds p (uftrace_shmem_fd p) = Some nm"
    and ok: "\<not> ftruncate_fails w" "\<not> mremap_fails w"
    and room: "unat (uftrace_symtab_size p) + UFTRACE_PYTHON_SYMTAB_SIZE < 2 ^ 32"
  shows "\<exists>p1 w2. grow_symtab new p w = Inr ((), p1, w2)"
proof -
  let ?c = "word_of_nat UFTRACE_PYTHON_SYMTAB_SIZE :: u32"
  have c: "unat ?c = UFTRACE_PYTHON_SYMTAB_SIZE"
    by (simp add: UFTRACE_PYTHON_SYMTAB_SIZE_def)
  with room have "unat (uftrace_symtab_size p + ?c) = unat (uftrace_symtab_size p) + UFTRACE_PYTHON_SYMTAB_SIZE"
    using unat_add_lem[of "uftrace_symtab_size p" ?c] by simp
  then have nz: "unat (uftrace_symtab_size p + ?c) \<noteq> 0"
    by (simp add: UFTRACE_PYTHON_SYMTAB_SIZE_def)
  from mapped_objectD[OF mo] have so: "shm_objects w nm = Some ob" by simp
  show ?thesis
    using fd ok so nz
    by (simp add: grow_symtab_def ftruncate_def mremap_ok_def Let_def)
qed

lemma write_entry_fault_only: "write_entry old new name k p w = Inl (e, w') \<Longrightarrow> e = Fault"
  by (auto simp: write_entry_def Let_def split: option.splits if_splits)

lemma get_new_sym_addr_returns:
  assumes inv: "symtab_inv p w" and mo: "mapped_object p w = Some (nm, ob)"
    and unit: "length name + 20 \<le> UFTRACE_PYTHON_SYMTAB_SIZE"
    and ok: "\<not> ftruncate_fails w" "\<not> mremap_fails w"
    and room: "unat (uftrace_symtab_size p) + UFTRACE_PYTHON_SYMTAB_SIZE < 2 ^ 32"
  shows "\<exists>a p' w'. get_new_sym_addr name k p w = Inr (a, p', w')"
proof -
  let ?new = "next_hdr (hdr ob) (entry_size name)"
  let ?w1 = "w\<lparr>shm_objects := (shm_objects w)(nm \<mapsto> ob\<lparr>hdr := ?new\<rparr>)\<rparr>"
  note i = symtab_invD[OF inv mo]
  from mapped_objectD[OF mo] have sy: "symtab p = Mapped nm" by simp
  have mo1: "mapped_object p ?w1 = Some (nm, ob\<lparr>hdr := ?new\<rparr>)"
    by (rule mapped_objectI) (simp_all add: sy)
  from grow_symtab_returns[OF mo1 i(1) _ _ room, of ?new] ok
  obtain p1 w2 where g: "grow_symtab ?new p ?w1 = Inr ((), p1, w2)" by auto
  show ?thesis
  proof (cases "get_new_sym_addr name k p w")
    case (Inr r)
    then show ?thesis by (cases r) auto
  next
    case (Inl e)
    then have "write_entry (hdr ob) ?new name k p1 w2 = Inl e"
      unfolding get_new_sym_addr_unfold[OF inv mo] g by simp
    with write_entry_fault_only[of "hdr ob" ?new name k p1 w2 "fst e" "snd e"]
    have "fst e = Fault" by simp
    with Inl get_new_sym_addr_no_fault[OF inv mo unit, of k "snd e"] show ?thesis
      by (cases e) simp
  qed
qed

subsection \<open>Growth of the mapping\<close>

lemma init_symtab_inv:
  assumes "init_symtab p w = Inr (u, p', w')"
  shows "symtab_inv p' w'"
proof -
  let ?nm = "c_string (snprintf 32 (''/uftrace-python-'' @ fmt_u (pid w)))"
  from assms have p': "p' = p\<lparr>uftrace_shmem_name := ?nm, uftrace_shmem_fd := shm_open_ret w,
                               open_fds := (open_fds p)(shm_open_ret w \<mapsto> ?nm),
                               symtab := Mapped ?nm,
                               uftrace_symtab_size := word_of_nat UFTRACE_PYTHON_SYMTAB_SIZE\<rparr>"
    and w': "w' = w\<lparr>shm_objects := (shm_objects w)(?nm \<mapsto>
                      (shm_truncate UFTRACE_PYTHON_SYMTAB_SIZE shm_empty)
                        \<lparr>hdr := \<lparr>count = 0, offset = word_of_nat UFTRACE_PYTHON_SYMTAB_HDRSZ\<rparr>\<rparr>)\<rparr>"
    by (auto simp: init_symtab_def ftruncate_def Let_def split: if_splits option.splits)
  have "mapped_object p' w' = Some (?nm, (shm_truncate UFTRACE_PYTHON_SYMTAB_SIZE shm_empty)
                        \<lparr>hdr := \<lparr>count = 0, offset = word_of_nat UFTRACE_PYTHON_SYMTAB_HDRSZ\<rparr>\<rparr>)"
    by (rule mapped_objectI) (simp_all add: p' w')
  then show ?thesis
    unfolding symtab_inv_def
    by (simp add: p' shm_truncate_def UFTRACE_PYTHON_SYMTAB_SIZE_def UFTRACE_PYTHON_SYMTAB_HDRSZ_def)
qed

lemma get_new_sym_addr_size:
  assumes inv: "symtab_inv p w" and mo: "mapped_object p w = Some (nm, ob)"
    and res: "get_new_sym_addr name k p w = Inr (a, p', w')"
  shows "unat (uftrace_symtab_size p') =
           (if uftrace_symtab_size p \<le> offset (next_hdr (hdr ob) (entry_size name))
            then unat (uftrace_symtab_size p) + UFTRACE_PYTHON_SYMTAB_SIZE
            else unat (uftrace_symtab_size p))"
proof -
  let ?new = "next_hdr (hdr ob) (entry_size name)"
  let ?w1 = "w\<lparr>shm_objects := (shm_objects w)(nm \<mapsto> ob\<lparr>hdr := ?new\<rparr>)\<rparr>"
  note i = symtab_invD[OF inv mo]
  from mapped_objectD[OF mo] have sy: "symtab p = Mapped nm" by simp
  from res obtain u p1 w2 where
    g: "grow_symtab ?new p ?w1 = Inr (u, p1, w2)"
    and wr: "write_entry (hdr ob) ?new name k p1 w2 = Inr (a, p', w')"
    unfolding get_new_sym_addr_unfold[OF inv mo]
    by (auto split: sum.splits)
  have mo1: "mapped_object p ?w1 = Some (nm, ob\<lparr>hdr := ?new\<rparr>)"
    by (rule mapped_objectI) (simp_all add: sy)
  from grow_symtab_alone[OF mo1 i(1) _ i(4) i(3) g] i(2)
  have "unat (uftrace_symtab_size p1) =
             (if uftrace_symtab_size p \<le> offset ?new
              then unat (uftrace_symtab_size p) + UFTRACE_PYTHON_SYMTAB_SIZE
              else unat (uftrace_symtab_size p))"
    by auto
  with write_entry_frame[OF wr] show ?thesis by simp
qed

text \<open>
  C10. In a process that runs alone, an allocation that returns has grown the mapping by
  exactly the unit of 1 MiB when the new offset was greater than or equal to the mapped
  size (the comparison of line 186), and has left its size alone otherwise. For a name
  whose entry (its length plus 20) is at most the unit: the new offset is the old one plus
  the entry size, the call never faults, and all the bytes of the entry (its text and the
  NUL that ends it) are stored inside the mapping as it is after the growth step; the
  table is again as a process running alone has it.
\<close>

theorem growth_step_covers_entry:
  assumes "symtab_inv p w"
    and "mapped_object p w = Some (nm, ob)"
  shows "(\<forall>a p' w'. get_new_sym_addr name k p w = Inr (a, p', w') \<longrightarrow>
            unat (uftrace_symtab_size p') =
              (if uftrace_symtab_size p \<le> offset (next_hdr (hdr ob) (entry_size name))
               then unat (uftrace_symtab_size p) + UFTRACE_PYTHON_SYMTAB_SIZE
               else unat (uftrace_symtab_size p))) \<and>
         (length name + 20 \<le> UFTRACE_PYTHON_SYMTAB_SIZE \<longrightarrow>
            (\<forall>w'. get_new_sym_addr name k p w \<noteq> Inl (Fault, w')) \<and>
            unat (offset (next_hdr (hdr ob) (entry_size name))) =
              unat (offset (hdr ob)) + (length name + 20) \<and>
            (\<forall>a p' w'. get_new_sym_addr name k p w = Inr (a, p', w') \<longrightarrow>
               unat (offset (hdr ob))
                 + length (entry_bytes (next_hdr (hdr ob) (entry_size name)) name k)
                 \<le> unat (uftrace_symtab_size p') \<and>
               symtab_inv p' w'))"
proof (intro conjI allI impI)
  fix a p' w'
  assume "get_new_sym_addr name k p w = Inr (a, p', w')"
  from get_new_sym_addr_size[OF assms this]
  show "unat (uftrace_symtab_size p') =
              (if uftrace_symtab_size p \<le> offset (next_hdr (hdr ob) (entry_size name))
               then unat (uftrace_symtab_size p) + UFTRACE_PYTHON_SYMTAB_SIZE
               else unat (uftrace_symtab_size p))" .
next
  fix w'
  assume unit: "length name + 20 \<le> UFTRACE_PYTHON_SYMTAB_SIZE"
  show "get_new_sym_addr name k p w \<noteq> Inl (Fault, w')"
    by (rule get_new_sym_addr_no_fault[OF assms unit])
next
  assume unit: "length name + 20 \<le> UFTRACE_PYTHON_SYMTAB_SIZE"
  show "unat (offset (next_hdr (hdr ob) (entry_size name))) =
          unat (offset (hdr ob)) + (length name + 20)"
    by (rule unit_no_wrap[OF assms unit])
next
  fix a p' w'
  assume unit: "length name + 20 \<le> UFTRACE_PYTHON_SYMTAB_SIZE"
    and res: "get_new_sym_addr name k p w = Inr (a, p', w')"
  note len = unit_fits_int[OF unit]
  from get_new_sym_addr_alone[OF assms len res]
  have f: "unat (offset (hdr ob)) + (length name + 21) \<le> unat (uftrace_symtab_size p')"
    and i: "symtab_inv p' w'"
    by blast+
  show "unat (offset (hdr ob))
              + length (entry_bytes (next_hdr (hdr ob) (entry_size name)) name k)
              \<le> unat (uftrace_symtab_size p')"
    using f by (simp add: entry_bytes_eq[OF len] length_sym_line)
  show "symtab_inv p' w'" by (rule i)
qed

lemma test_mapped: "mapped_object test_proc test_started = Some (''/uftrace-python-1234'', test_shm)"
  by (simp add: mapped_object_def test_proc_simps test_started_simps)

lemma test_symtab_inv: "symtab_inv test_proc test_started"
  by (simp add: symtab_inv_def test_mapped test_proc_simps test_shm_def
        UFTRACE_PYTHON_SYMTAB_SIZE_def UFTRACE_PYTHON_SYMTAB_HDRSZ_def)

text \<open>
  A name of 1048508 characters in the fresh table: the new offset is exactly the mapped
  size, the mapping grows to 2 MiB, and the entry with its NUL ends at byte 1048577.
\<close>

theorem growth_step_witness:
  "symtab_inv test_proc test_started \<and>
   mapped_object test_proc test_started = Some (''/uftrace-python-1234'', test_shm) \<and>
   length (replicate 1048508 (CHR ''x'')) + 20 \<le> UFTRACE_PYTHON_SYMTAB_SIZE \<and>
   unat (offset (next_hdr (hdr test_shm) (entry_size (replicate 1048508 (CHR ''x''))))) = 1048576 \<and>
   unat (uftrace_symtab_size test_proc) = 1048576 \<and>
   (\<exists>a p' w'. get_new_sym_addr (replicate 1048508 (CHR ''x'')) True test_proc test_started
                 = Inr (a, p', w') \<and>
               unat (uftrace_symtab_size p') = 2097152 \<and>
               48 + length (entry_bytes (next_hdr (hdr test_shm)
                                           (entry_size (replicate 1048508 (CHR ''x''))))
                              (replicate 1048508 (CHR ''x'')) True) = 1048577)"
proof -
  let ?name = "replicate 1048508 (CHR ''x'')"
  have unit: "length ?name + 20 \<le> UFTRACE_PYTHON_SYMTAB_SIZE"
    by (simp add: UFTRACE_PYTHON_SYMTAB_SIZE_def)
  note inst = growth_step_covers_entry[OF test_symtab_inv test_mapped, of ?name True]
  from get_new_sym_addr_returns[OF test_symtab_inv test_mapped unit, of True]
  obtain a p' w' where r: "get_new_sym_addr ?name True test_proc test_started = Inr (a, p', w')"
    by (auto simp: test_started_simps test_proc_simps UFTRACE_PYTHON_SYMTAB_SIZE_def)
  have off: "unat (offset (next_hdr (hdr test_shm) (entry_size ?name))) = 1048576"
    using inst unit by (simp add: test_shm_def)
  have sz: "unat (uftrace_symtab_size test_proc) = 1048576"
    by (simp add: test_proc_simps)
  from inst r off sz have "unat (uftrace_symtab_size p') = 2097152"
    by (simp add: word_le_nat_alt UFTRACE_PYTHON_SYMTAB_SIZE_def)
  moreover have "48 + length (entry_bytes (next_hdr (hdr test_shm) (entry_size ?name)) ?name True) = 1048577"
    by (simp add: entry_bytes_eq[OF unit_fits_int[OF unit]] length_sym_line)
  ultimately show ?thesis
    using test_symtab_inv test_mapped unit off sz r by blast
qed

subsection \<open>The table after any number of allocations\<close>

lemma table_text_append:
  "table_text c (xs @ ys) = table_text c xs @ table_text (c + word_of_nat (length xs)) ys"
  by (induction xs arbitrary: c) (simp_all add: add.assoc add.commute[of 1])

lemma table_holdsD:
  assumes "table_holds p w hist" and "mapped_object p w = Some (nm, ob)"
  shows "symtab_inv p w"
    and "count (hdr ob) = word_of_nat (length hist)"
    and "unat (offset (hdr ob)) = UFTRACE_PYTHON_SYMTAB_HDRSZ + length (table_text 0 hist)"
    and "load_bytes (bytes ob) UFTRACE_PYTHON_SYMTAB_HDRSZ (length (table_text 0 hist))
           = table_text 0 hist"
  using assms by (simp_all add: table_holds_def)

lemma init_symtab_table:
  assumes "init_symtab p w = Inr (u, p', w')"
  shows "table_holds p' w' []"
proof -
  from init_symtab_inv[OF assms] have inv: "symtab_inv p' w'" .
  from symtab_inv_mapped[OF inv] obtain nm ob where mo: "mapped_object p' w' = Some (nm, ob)"
    by blast
  from assms mapped_objectD[OF mo]
  have "hdr ob = \<lparr>count = 0, offset = word_of_nat UFTRACE_PYTHON_SYMTAB_HDRSZ\<rparr>"
    by (auto simp: init_symtab_def ftruncate_def Let_def split: if_splits option.splits)
  with inv mo show ?thesis
    by (simp add: table_holds_def load_bytes_def UFTRACE_PYTHON_SYMTAB_HDRSZ_def)
qed

lemma get_new_sym_addr_table:
  assumes th: "table_holds p w hist"
    and len: "length name + 21 < 2 ^ 31"
    and res: "get_new_sym_addr name k p w = Inr (a, p', w')"
  shows "table_holds p' w' (hist @ [(name, k)]) \<and> a = word_of_nat (length hist + 1)"
proof -
  from th have inv: "symtab_inv p w" by (simp add: table_holds_def)
  from symtab_inv_mapped[OF inv] obtain nm ob where mo: "mapped_object p w = Some (nm, ob)"
    by blast
  note t = table_holdsD[OF th mo]
  let ?H = UFTRACE_PYTHON_SYMTAB_HDRSZ
  let ?n = "length (table_text 0 hist)"
  let ?L = "length name + 20"
  from get_new_sym_addr_alone[OF inv mo len res]
  obtain ob' where mo': "mapped_object p' w' = Some (nm, ob')"
    and inv': "symtab_inv p' w'"
    and a: "a = count (hdr ob) + 1"
    and c': "count (hdr ob') = count (hdr ob) + 1"
    and o': "unat (offset (hdr ob')) = unat (offset (hdr ob)) + ?L"
    and below: "\<forall>i < unat (offset (hdr ob)). bytes ob' i = bytes ob i"
    and line: "load_bytes (bytes ob') (unat (offset (hdr ob))) ?L = sym_line a (kind_char k) name"
    by blast
  have tt: "table_text 0 (hist @ [(name, k)]) = table_text 0 hist @ sym_line a (kind_char k) name"
    by (simp add: table_text_append a t(2))
  have ltxt: "length (table_text 0 (hist @ [(name, k)])) = ?n + ?L"
    by (simp add: tt length_sym_line)
  have "load_bytes (bytes ob') ?H ?n = load_bytes (bytes ob) ?H ?n"
    using below t(3) by (intro load_bytes_cong) simp
  then have "load_bytes (bytes ob') ?H (?n + ?L) = table_text 0 hist @ sym_line a (kind_char k) name"
    using line t(3,4) by (simp add: load_bytes_add)
  then have "load_bytes (bytes ob') ?H (length (table_text 0 (hist @ [(name, k)])))
               = table_text 0 (hist @ [(name, k)])"
    by (simp only: ltxt) (simp only: tt)
  moreover have "count (hdr ob') = word_of_nat (length (hist @ [(name, k)]))"
    using c' t(2) by simp
  moreover have "unat (offset (hdr ob')) = ?H + length (table_text 0 (hist @ [(name, k)]))"
    unfolding ltxt using o' t(3) by simp
  ultimately have "table_holds p' w' (hist @ [(name, k)])"
    unfolding table_holds_def using inv' mo' by simp
  moreover have "a = word_of_nat (length hist + 1)" using a t(2) by simp
  ultimately show ?thesis ..
qed

lemma alloc_all_table:
  assumes "table_holds p w hist"
    and "\<forall>r \<in> set rs. length (fst r) + 21 < 2 ^ 31"
    and "alloc_all rs p w = Inr (as, p', w')"
  shows "table_holds p' w' (hist @ rs) \<and>
         as = map word_of_nat [length hist + 1 ..< length hist + 1 + length rs]"
  using assms
proof (induction rs arbitrary: p w hist as)
  case Nil
  then show ?case by simp
next
  case (Cons r rs)
  from Cons.prems(3) obtain a p1 w1 as' where
    r1: "get_new_sym_addr (fst r) (snd r) p w = Inr (a, p1, w1)"
    and r2: "alloc_all rs p1 w1 = Inr (as', p', w')"
    and as: "as = a # as'"
    by (auto split: sum.splits)
  from Cons.prems(2) have l1: "length (fst r) + 21 < 2 ^ 31"
    and l2: "\<forall>r \<in> set rs. length (fst r) + 21 < 2 ^ 31" by simp_all
  from get_new_sym_addr_table[OF Cons.prems(1) l1 r1]
  have th1: "table_holds p1 w1 (hist @ [r])" and a: "a = word_of_nat (length hist + 1)"
    by simp_all
  from Cons.IH[OF th1 l2 r2]
  have "table_holds p' w' (hist @ r # rs)"
    and "as' = map word_of_nat [length hist + 2 ..< length hist + 2 + length rs]"
    by simp_all
  moreover have "[length hist + 1 ..< length hist + 1 + length (r # rs)]
                 = (length hist + 1) # [length hist + 2 ..< length hist + 2 + length rs]"
    by (subst upt_conv_Cons) simp_all
  ultimately show ?case using as a by simp
qed

subsection \<open>Writing the table to the file\<close>

lemma copy_loop_all:
  assumes "\<forall>n. 0 < n \<and> n \<le> unat len \<longrightarrow> 0 < fw n \<and> min n (fw n) < 2 ^ 31"
    and "buf + unat len \<le> lim"
  shows "copy_loop fw mem lim buf len out = Some (Inr (out @ load_bytes mem buf (unat len)))"
  using assms
proof (induction "unat len" arbitrary: len buf out rule: less_induct)
  case less
  show ?case
  proof (cases "len = 0")
    case True
    then show ?thesis by (subst copy_loop.simps) (simp add: load_bytes_def)
  next
    case False
    let ?n = "min (fw (unat len)) (unat len)"
    let ?sz = "word_of_nat ?n :: u32"
    have pos: "0 < unat len" using False by (simp add: unat_gt_0)
    from less.prems(1) pos have "0 < fw (unat len) \<and> min (unat len) (fw (unat len)) < 2 ^ 31"
      by blast
    with pos have n: "0 < ?n" "?n < 2 ^ 31" "?n \<le> unat len"
      by (simp_all add: min.commute)
    have "?n < 2 ^ 32" using n(2) by simp
    then have usz: "unat ?sz = ?n" by (rule unat_of_nat_u32)
    have ssz: "sint ?sz = int ?n" by (rule sint_of_nat_u32[OF n(2)])
    have le: "?sz \<le> len" using n(3) by (simp only: word_le_nat_alt usz)
    have ul: "unat (len - ?sz) = unat len - ?n" by (simp only: unat_sub[OF le] usz)
    have lt: "unat (len - ?sz) < unat len" using ul n(1) pos by simp
    have fw': "\<forall>m. 0 < m \<and> m \<le> unat (len - ?sz) \<longrightarrow> 0 < fw m \<and> min m (fw m) < 2 ^ 31"
    proof (intro allI impI)
      fix m assume "0 < m \<and> m \<le> unat (len - ?sz)"
      then have "0 < m \<and> m \<le> unat len" using lt by linarith
      with less.prems(1) show "0 < fw m \<and> min m (fw m) < 2 ^ 31" by blast
    qed
    have lim': "buf + ?n + unat (len - ?sz) \<le> lim"
      using less.prems(2) ul n(3) by simp
    have IH: "copy_loop fw mem lim (buf + ?n) (len - ?sz) (out @ load_bytes mem buf ?n)
                = Some (Inr ((out @ load_bytes mem buf ?n)
                             @ load_bytes mem (buf + ?n) (unat (len - ?sz))))"
      by (rule less.hyps[OF lt fw' lim'])
    have whole: "load_bytes mem buf ?n @ load_bytes mem (buf + ?n) (unat len - ?n)
                   = load_bytes mem buf (unat len)"
      using load_bytes_add[of mem buf ?n "unat len - ?n"] n(3) by simp
    have nf: "\<not> lim < buf + ?n" using less.prems(2) n(3) by simp
    have ns: "\<not> sint ?sz < 0" unfolding ssz by simp
    show ?thesis
      by (subst copy_loop.simps) (simp only: False if_False Let_def nf ns IH ul whole append_assoc)
  qed
qed

lemma write_symtab_fopen_fails:
  "fopen_fails w \<Longrightarrow>
   write_symtab K dir p w =
     Some (Inr ((), p, w\<lparr>warnings := warnings w @ [''writing symbol table of python program failed'']\<rparr>))"
  by (simp add: write_symtab_def)

lemma write_symtab_table:
  assumes th: "table_holds p w hist"
    and mo: "mapped_object p w = Some (nm, ob)"
    and fo: "\<not> fopen_fails w"
    and fw: "\<forall>n. 0 < n \<and> n \<le> length (table_text 0 hist) \<longrightarrow>
                 0 < fwrite_ret w n \<and> min n (fwrite_ret w n) < 2 ^ 31"
  shows "\<exists>p' w'. write_symtab K dir p w = Some (Inr ((), p', w')) \<and>
           files w' (dir @ ''/'' @ SYMTAB_NAME K @ ''.sym'') =
             Some (fst (header_comment K (word_of_nat (length hist))) @ table_text 0 hist
                   @ sym_line (word_of_nat (length hist) + 1) (CHR ''?'') ''__sym_end'') \<and>
           symtab p' = Unmapped nm \<and> open_fds p' (uftrace_shmem_fd p) = None \<and>
           shm_objects w' nm = None"
proof -
  let ?H = UFTRACE_PYTHON_SYMTAB_HDRSZ
  let ?file = "dir @ ''/'' @ SYMTAB_NAME K @ ''.sym''"
  let ?w1 = "w\<lparr>files := (files w)(?file \<mapsto> [])\<rparr>"
  let ?hc = "header_comment K (count (hdr ob))"
  let ?w2 = "if snd ?hc \<noteq> word_of_nat ?H
             then ?w1\<lparr>warnings := warnings ?w1 @ [''symbol header size should be 64'']\<rparr> else ?w1"
  let ?len = "offset (hdr ob) - word_of_nat ?H"
  note t = table_holdsD[OF th mo]
  note i = symtab_invD[OF t(1) mo]
  from mapped_objectD[OF mo] have sy: "symtab p = Mapped nm" and so: "shm_objects w nm = Some ob"
    by simp_all
  have mo1: "mapped_object p ?w1 = Some (nm, ob)"
    by (rule mapped_objectI) (simp_all add: sy so)
  have im: "in_mapping p ob 0 8"
    using i(2,5,6) by (simp add: in_mapping_def UFTRACE_PYTHON_SYMTAB_HDRSZ_def)
  have uH: "unat (word_of_nat ?H :: u32) = ?H"
    by (simp add: UFTRACE_PYTHON_SYMTAB_HDRSZ_def)
  have "(word_of_nat ?H :: u32) \<le> offset (hdr ob)"
    using i(5) by (simp only: word_le_nat_alt uH)
  from unat_sub[OF this] have ulen: "unat ?len = length (table_text 0 hist)"
    using t(3) by (simp only: uH)
  have fwr: "fwrite_ret ?w2 = fwrite_ret w" by simp
  have lim: "?H + unat ?len \<le> min (unat (uftrace_symtab_size p)) (shm_len ob)"
    using i(2,6) t(3) by (simp add: ulen)
  have fw': "\<forall>n. 0 < n \<and> n \<le> unat ?len \<longrightarrow> 0 < fwrite_ret w n \<and> min n (fwrite_ret w n) < 2 ^ 31"
    using fw by (simp only: ulen)
  have cl: "copy_loop (fwrite_ret ?w2) (bytes ob) (min (unat (uftrace_symtab_size p)) (shm_len ob))
              ?H ?len (fst ?hc) = Some (Inr (fst ?hc @ table_text 0 hist))"
    unfolding fwr using copy_loop_all[OF fw' lim, of "bytes ob" "fst ?hc"] t(4)
    by (simp only: ulen)
  let ?out = "fst ?hc @ table_text 0 hist @ sym_line (count (hdr ob) + 1) (CHR ''?'') ''__sym_end''"
  let ?p' = "p\<lparr>symtab := Unmapped nm,
                 open_fds := (open_fds p)(uftrace_shmem_fd p := None)\<rparr>"
  let ?w' = "?w2\<lparr>files := (files ?w2)(?file \<mapsto> ?out),
                  shm_objects := (shm_objects ?w2)(uftrace_shmem_name p := None)\<rparr>"
  have "write_symtab K dir p w = Some (Inr ((), ?p', ?w'))"
    unfolding write_symtab_def Let_def using fo im
    by (simp only: if_False mo1 option.case prod.case not_not if_True cl sum.case)
       (simp add: Let_def)
  moreover have "files ?w' ?file = Some ?out" by simp
  moreover have "symtab ?p' = Unmapped nm" by simp
  moreover have "open_fds ?p' (uftrace_shmem_fd p) = None" by simp
  moreover have "shm_objects ?w' nm = None" using i(7) by simp
  ultimately show ?thesis unfolding t(2) by blast
qed

lemma get_new_sym_addr_flags:
  assumes "get_new_sym_addr name k p w = Inr (a, p', w')"
  shows "ftruncate_fails w' = ftruncate_fails w" and "mremap_fails w' = mremap_fails w"
    and "fopen_fails w' = fopen_fails w" and "fwrite_ret w' = fwrite_ret w"
    and "files w' = files w"
  using get_new_sym_addr_frame[OF assms]
    world_frameD[where w' = w' and w = w and s = "shm_objects w'"] by simp_all

lemma alloc_all_flags:
  assumes "alloc_all rs p w = Inr (as, p', w')"
  shows "fopen_fails w' = fopen_fails w \<and> fwrite_ret w' = fwrite_ret w \<and> files w' = files w"
  using assms
proof (induction rs arbitrary: p w as)
  case Nil
  then show ?case by simp
next
  case (Cons r rs)
  from Cons.prems obtain a p1 w1 as' where
    r1: "get_new_sym_addr (fst r) (snd r) p w = Inr (a, p1, w1)"
    and r2: "alloc_all rs p1 w1 = Inr (as', p', w')"
    by (auto split: sum.splits)
  from Cons.IH[OF r2] get_new_sym_addr_flags[OF r1] show ?case by simp
qed

lemma alloc_all_returns:
  assumes "symtab_inv p w"
    and "\<forall>r \<in> set rs. length (fst r) + 20 \<le> UFTRACE_PYTHON_SYMTAB_SIZE"
    and "\<not> ftruncate_fails w" and "\<not> mremap_fails w"
    and "unat (uftrace_symtab_size p) + length rs * UFTRACE_PYTHON_SYMTAB_SIZE < 2 ^ 32"
  shows "\<exists>as p' w'. alloc_all rs p w = Inr (as, p', w')"
  using assms
proof (induction rs arbitrary: p w)
  case Nil
  then show ?case by simp
next
  case (Cons r rs)
  from symtab_inv_mapped[OF Cons.prems(1)] obtain nm ob where
    mo: "mapped_object p w = Some (nm, ob)" by blast
  from Cons.prems(2) have u1: "length (fst r) + 20 \<le> UFTRACE_PYTHON_SYMTAB_SIZE"
    and u2: "\<forall>r \<in> set rs. length (fst r) + 20 \<le> UFTRACE_PYTHON_SYMTAB_SIZE" by simp_all
  from Cons.prems(5) have room1: "unat (uftrace_symtab_size p) + UFTRACE_PYTHON_SYMTAB_SIZE < 2 ^ 32"
    by simp
  from get_new_sym_addr_returns[OF Cons.prems(1) mo u1 Cons.prems(3,4) room1]
  obtain a p1 w1 where r1: "get_new_sym_addr (fst r) (snd r) p w = Inr (a, p1, w1)" by blast
  from get_new_sym_addr_alone[OF Cons.prems(1) mo unit_fits_int[OF u1] r1]
  have inv1: "symtab_inv p1 w1" by blast
  from get_new_sym_addr_size[OF Cons.prems(1) mo r1]
  have "unat (uftrace_symtab_size p1) \<le> unat (uftrace_symtab_size p) + UFTRACE_PYTHON_SYMTAB_SIZE"
    by (simp split: if_splits)
  with Cons.prems(5)
  have room: "unat (uftrace_symtab_size p1) + length rs * UFTRACE_PYTHON_SYMTAB_SIZE < 2 ^ 32"
    by simp
  from get_new_sym_addr_flags[OF r1] Cons.prems(3,4)
  have ok: "\<not> ftruncate_fails w1" "\<not> mremap_fails w1" by simp_all
  from Cons.IH[OF inv1 u2 ok room] obtain as p' w' where "alloc_all rs p1 w1 = Inr (as, p', w')"
    by blast
  with r1 show ?case by simp
qed

subsection \<open>All entries reach the file\<close>

lemma length_table_text:
  "length (table_text c rs) = sum_list (map (\<lambda>r. length (fst r) + 20) rs)"
  by (induction rs arbitrary: c) (simp_all add: length_sym_line)

lemma length_table_text_append:
  "length (table_text c (xs @ ys)) = length (table_text c xs) + length (table_text c ys)"
  by (simp add: length_table_text)










lemma test_init_symtab_hooks:
  "init_symtab (proc_init\<lparr>skip_first_frame := True, cygprof_enter := 4352, cygprof_exit := 4608\<rparr>)
     test_world = Inr ((), test_proc, test_started)"
  by (simp add: init_symtab_def test_world_simps fmt_u_1234 snprintf_def c_string_def NUL_def
        ftruncate_def Let_def
        shm_truncate_empty UFTRACE_PYTHON_SYMTAB_SIZE_def UFTRACE_PYTHON_SYMTAB_HDRSZ_def)
     (simp add: proc_init_def test_proc_def test_started_def test_shm_def NUL_def)

lemma test_table_empty: "table_holds test_proc test_started []"
  by (rule init_symtab_table[OF test_init_symtab_hooks])

lemma fmt_x_digit: "n < 16 \<Longrightarrow> fmt_x n = [hex_digit n]"
  by (subst fmt_x.simps) simp

lemma fmt_u_digit: "n < 10 \<Longrightarrow> fmt_u n = [dec_digit n]"
  by (subst fmt_u.simps) simp

lemma replicate_15: "replicate 15 c = [c, c, c, c, c, c, c, c, c, c, c, c, c, c, c]"
  by (simp add: numeral_eq_Suc)

lemma replicate_8: "replicate 8 c = [c, c, c, c, c, c, c, c]"
  by (simp add: numeral_eq_Suc)

lemma sym_line_small:
  "sym_line 1 kind name = ''0000000000000001 '' @ [kind] @ '' '' @ name @ [NL]"
  "sym_line 2 kind name = ''0000000000000002 '' @ [kind] @ '' '' @ name @ [NL]"
  "sym_line 3 kind name = ''0000000000000003 '' @ [kind] @ '' '' @ name @ [NL]"
  "sym_line 4 kind name = ''0000000000000004 '' @ [kind] @ '' '' @ name @ [NL]"
  by (simp_all add: sym_line_def fmt_016x_def fmt_x_digit hex_digit_def replicate_15)





subsection \<open>Where growth loses entries\<close>















subsection \<open>The test case of the source\<close>

lemma init_symtab_returns:
  assumes "0 \<le> shm_open_ret w" and "\<not> ftruncate_fails w" and "\<not> mmap_fails w"
  shows "\<exists>p' w'. init_symtab p w = Inr ((), p', w') \<and> w' = w\<lparr>shm_objects := shm_objects w'\<rparr> \<and>
           uftrace_symtab_size p' = word_of_nat UFTRACE_PYTHON_SYMTAB_SIZE"
  using assms by (simp add: init_symtab_def ftruncate_def Let_def)

lemma unit_test_world_simps:
  "environ unit_test_world ''UFTRACE_SHMEM'' = None" "0 \<le> shm_open_ret unit_test_world"
  "\<not> ftruncate_fails unit_test_world" "\<not> mmap_fails unit_test_world"
  "\<not> mremap_fails unit_test_world" "\<not> fopen_fails unit_test_world"
  "fwrite_ret unit_test_world = (\<lambda>n. n)"
  by (simp_all add: unit_test_world_def test_world_def)

lemma header_comment_test_3:
  "fst (header_comment test_consts 3) =
     ''# symbols: 3\<newline># path name: python.fake\<newline>#        \<newline>''"
  by (simp add: header_comment_def test_consts_def fmt_u_digit dec_digit_def NL_def
        fmt_star_empty_def UFTRACE_PYTHON_SYMTAB_HDRSZ_def Let_def replicate_8)

text \<open>
  C2. The test case of the source: from the freshly initialised table, the allocations
  for \<open>a\<close> (a Python function), \<open>b\<close> (a Python function) and \<open>c\<close> (a C function) return
  1, 2 and 3, and the file that \<^verbatim>\<open>write_symtab\<close> leaves is the header comment (48 bytes
  that begin with \<^verbatim>\<open>#\<close>, here for three symbols) followed by exactly the three lines
  of the entries and the line of \<open>__sym_end\<close> with address 4 and kind \<^verbatim>\<open>?\<close>.
\<close>

theorem python_symtab_case_result:
  "\<exists>p w. python_symtab_case K proc_init unit_test_world = Some (Inr ((1, 2, 3), p, w)) \<and>
          files w (''./'' @ SYMTAB_NAME K @ ''.sym'') =
            Some (fst (header_comment K 3)
                  @ ''0000000000000001 T a\<newline>''
                  @ ''0000000000000002 T b\<newline>''
                  @ ''0000000000000003 t c\<newline>''
                  @ ''0000000000000004 ? __sym_end\<newline>'')"
proof -
  let ?reqs = "[(''a'', True), (''b'', True), (''c'', False)]"
  have i0: "init_uftrace proc_init unit_test_world = Inr ((), proc_init, unit_test_world)"
    by (simp add: init_uftrace_def unit_test_world_simps)
  from init_symtab_returns[OF unit_test_world_simps(2,3,4), of proc_init]
  obtain p1 w1 where i1: "init_symtab proc_init unit_test_world = Inr ((), p1, w1)"
    and w1: "w1 = unit_test_world\<lparr>shm_objects := shm_objects w1\<rparr>"
    and s1: "uftrace_symtab_size p1 = word_of_nat UFTRACE_PYTHON_SYMTAB_SIZE"
    by blast
  note fl = world_frameD[OF w1]
  have ok: "\<not> ftruncate_fails w1" "\<not> mremap_fails w1"
    using fl by (simp_all add: unit_test_world_simps)
  have units: "\<forall>r \<in> set ?reqs. length (fst r) + 20 \<le> UFTRACE_PYTHON_SYMTAB_SIZE"
    by (simp add: UFTRACE_PYTHON_SYMTAB_SIZE_def)
  have names: "\<forall>r \<in> set ?reqs. length (fst r) + 21 < 2 ^ 31" by simp
  have room: "unat (uftrace_symtab_size p1) + length ?reqs * UFTRACE_PYTHON_SYMTAB_SIZE < 2 ^ 32"
    by (simp add: s1 UFTRACE_PYTHON_SYMTAB_SIZE_def)
  from alloc_all_returns[OF init_symtab_inv[OF i1] units ok room]
  obtain as p4 w4 where run: "alloc_all ?reqs p1 w1 = Inr (as, p4, w4)" by blast
  from alloc_all_table[OF init_symtab_table[OF i1] names run]
  have th: "table_holds p4 w4 ?reqs" and as: "as = [1, 2, 3]"
    by (simp_all add: upt_conv_Cons)
  from run as obtain p2 w2 p3 w3 where
    r1: "get_new_sym_addr ''a'' True p1 w1 = Inr (1, p2, w2)"
    and r2: "get_new_sym_addr ''b'' True p2 w2 = Inr (2, p3, w3)"
    and r3: "get_new_sym_addr ''c'' False p3 w3 = Inr (3, p4, w4)"
    by (auto split: sum.splits)
  from alloc_all_flags[OF run] fl
  have f4: "\<not> fopen_fails w4" "fwrite_ret w4 = (\<lambda>n. n)"
    by (simp_all add: unit_test_world_simps)
  have fw: "\<forall>n. 0 < n \<and> n \<le> length (table_text 0 ?reqs) \<longrightarrow>
               0 < fwrite_ret w4 n \<and> min n (fwrite_ret w4 n) < 2 ^ 31"
    by (simp add: f4 length_sym_line)
  from th have "symtab_inv p4 w4" by (simp add: table_holds_def)
  from symtab_inv_mapped[OF this] obtain nm ob where mo: "mapped_object p4 w4 = Some (nm, ob)"
    by blast
  from write_symtab_table[OF th mo f4(1) fw, of K "''.''"]
  obtain p5 w5 where ws: "write_symtab K ''.'' p4 w4 = Some (Inr ((), p5, w5))"
    and fl5: "files w5 (''.'' @ ''/'' @ SYMTAB_NAME K @ ''.sym'') =
             Some (fst (header_comment K (word_of_nat (length ?reqs))) @ table_text 0 ?reqs
                   @ sym_line (word_of_nat (length ?reqs) + 1) (CHR ''?'') ''__sym_end'')"
    by blast
  have "python_symtab_case K proc_init unit_test_world = Some (Inr ((1, 2, 3), p5, w5))"
    by (simp add: python_symtab_case_def i0 i1 r1 r2 r3 ws)
  moreover from fl5 have "files w5 (''./'' @ SYMTAB_NAME K @ ''.sym'') =
            Some (fst (header_comment K 3)
                  @ ''0000000000000001 T a\<newline>''
                  @ ''0000000000000002 T b\<newline>''
                  @ ''0000000000000003 t c\<newline>''
                  @ ''0000000000000004 ? __sym_end\<newline>'')"
    by (simp add: sym_line_small NL_def kind_char_def)
  ultimately show ?thesis by blast
qed

subsection \<open>The first frame\<close>

lemma trace_event_enter:
  assumes "ev = ''call'' \<or> ev = ''c_call''"
    and "trace_event K fr ev x p w = Inr (res, p', w')"
  shows "\<exists>addr. hook_calls w' = hook_calls w @ [Enter addr 0]"
proof -
  from assms obtain addr p2 w2 where
    c: "convert_function_addr fr x (ev = ''call'') p w = Inr (addr, p2, w2)"
    and w': "w' = w2\<lparr>hook_calls := hook_calls w2 @ [Enter addr 0]\<rparr>"
    by (auto simp: trace_event_def Let_def call_hook_def split: if_splits sum.splits)
  from convert_function_addr_world(2)[OF c] w' show ?thesis by simp
qed

lemma trace_event_proc:
  assumes "trace_event K fr ev x p w = Inr (res, p', w')"
  shows "skip_first_frame p' = skip_first_frame p \<and> first_frame p' = first_frame p"
proof (cases "ev = ''call'' \<or> ev = ''c_call''")
  case True
  with assms obtain addr w2 where
    c: "convert_function_addr fr x (ev = ''call'') p w = Inr (addr, p', w2)"
    by (auto simp: trace_event_def Let_def call_hook_def split: if_splits sum.splits)
  from convert_function_addr_proc(1,2)[OF c] show ?thesis by simp
next
  case False
  with assms show ?thesis
    by (auto simp: trace_event_def Let_def call_hook_def split: if_splits)
qed

text \<open>
  C7. While \<open>skip_first_frame\<close> is set: the first event records its frame as the first
  frame and is skipped, with no hook called and nothing else changed; an event that
  carries the first frame is skipped, with nothing changed at all; an event on another
  frame goes through the dispatch on the event, which for an enter event calls the enter
  hook; and after any invocation \<open>skip_first_frame\<close> is still set and the first frame,
  once recorded, is the same.
\<close>

theorem first_frame_is_skipped:
  assumes "skip_first_frame p"
  shows "(first_frame p = None \<longrightarrow>
            uftrace_trace_python K (Args fr ev x) p w =
              Inr (Py_None, p\<lparr>first_frame := Some (frame_addr fr)\<rparr>, w)) \<and>
         (first_frame p = Some (frame_addr fr) \<longrightarrow>
            uftrace_trace_python K (Args fr ev x) p w = Inr (Py_None, p, w)) \<and>
         (\<forall>r. first_frame p = Some r \<and> frame_addr fr \<noteq> r \<longrightarrow>
            uftrace_trace_python K (Args fr ev x) p w = trace_event K fr ev x p w) \<and>
         (\<forall>r res p' w'. first_frame p = Some r \<and> frame_addr fr \<noteq> r \<and>
            (ev = ''call'' \<or> ev = ''c_call'') \<and>
            uftrace_trace_python K (Args fr ev x) p w = Inr (res, p', w') \<longrightarrow>
            (\<exists>addr. hook_calls w' = hook_calls w @ [Enter addr 0])) \<and>
         (\<forall>a res p' w'. uftrace_trace_python K a p w = Inr (res, p', w') \<longrightarrow>
            skip_first_frame p' \<and> (first_frame p \<noteq> None \<longrightarrow> first_frame p' = first_frame p))"
proof (intro conjI allI impI)
  assume "first_frame p = None"
  with assms show "uftrace_trace_python K (Args fr ev x) p w =
              Inr (Py_None, p\<lparr>first_frame := Some (frame_addr fr)\<rparr>, w)"
    by (simp add: trace_python_skipped skipped_Args)
next
  assume f: "first_frame p = Some (frame_addr fr)"
  then have "p\<lparr>first_frame := Some (frame_addr fr)\<rparr> = p" by simp
  with assms f show "uftrace_trace_python K (Args fr ev x) p w = Inr (Py_None, p, w)"
    by (simp add: trace_python_skipped skipped_Args)
next
  fix r assume "first_frame p = Some r \<and> frame_addr fr \<noteq> r"
  then show "uftrace_trace_python K (Args fr ev x) p w = trace_event K fr ev x p w"
    by (subst trace_python_not_skipped) (auto simp: skipped_Args)
next
  fix r res p' w'
  assume a: "first_frame p = Some r \<and> frame_addr fr \<noteq> r \<and>
            (ev = ''call'' \<or> ev = ''c_call'') \<and>
            uftrace_trace_python K (Args fr ev x) p w = Inr (res, p', w')"
  then have "uftrace_trace_python K (Args fr ev x) p w = trace_event K fr ev x p w"
    by (subst trace_python_not_skipped) (auto simp: skipped_Args)
  with a have "trace_event K fr ev x p w = Inr (res, p', w')" by simp
  with a show "\<exists>addr. hook_calls w' = hook_calls w @ [Enter addr 0]"
    by (intro trace_event_enter[of ev K fr x p w res p' w']) simp_all
next
  fix a res p' w'
  assume r: "uftrace_trace_python K a p w = Inr (res, p', w')"
  show "skip_first_frame p'"
  proof (cases a)
    case BadArgs
    with r assms show ?thesis by (simp add: uftrace_trace_python_def)
  next
    case (Args fr' ev' x')
    show ?thesis
    proof (cases "skipped a p")
      case True
      with r Args assms show ?thesis by (auto simp: trace_python_skipped)
    next
      case False
      with r Args have "trace_event K fr' ev' x'
             (if first_frame p = None then p\<lparr>first_frame := Some (frame_addr fr')\<rparr> else p) w
             = Inr (res, p', w')"
        by (simp add: trace_python_not_skipped)
      from trace_event_proc[OF this] assms show ?thesis by (simp split: if_splits)
    qed
  qed
next
  fix a res p' w'
  assume r: "uftrace_trace_python K a p w = Inr (res, p', w')"
    and nn: "first_frame p \<noteq> None"
  show "first_frame p' = first_frame p"
  proof (cases a)
    case BadArgs
    with r show ?thesis by (simp add: uftrace_trace_python_def)
  next
    case (Args fr' ev' x')
    show ?thesis
    proof (cases "skipped a p")
      case True
      with r Args nn assms show ?thesis by (auto simp: trace_python_skipped skipped_Args)
    next
      case False
      from nn obtain y where "first_frame p = Some y" by auto
      with False r Args have "trace_event K fr' ev' x' p w = Inr (res, p', w')"
        by (simp add: trace_python_not_skipped)
      from trace_event_proc[OF this] show ?thesis by simp
    qed
  qed
qed


lemma mapped_object_first_frame [simp]:
  "mapped_object (p\<lparr>first_frame := f\<rparr>) w = mapped_object p w"
  by (simp add: mapped_object_def)

lemma symtab_inv_first_frame [simp]: "symtab_inv (p\<lparr>first_frame := f\<rparr>) w = symtab_inv p w"
  by (simp add: symtab_inv_def split: option.splits)

lemma table_holds_first_frame [simp]:
  "table_holds (p\<lparr>first_frame := f\<rparr>) w hist = table_holds p w hist"
  by (simp add: table_holds_def)

lemma mapped_object_hook_calls [simp]:
  "mapped_object p (w\<lparr>hook_calls := h\<rparr>) = mapped_object p w"
  by (simp add: mapped_object_def split: map_ptr.splits)

lemma symtab_inv_hook_calls [simp]: "symtab_inv p (w\<lparr>hook_calls := h\<rparr>) = symtab_inv p w"
  by (simp add: symtab_inv_def)

lemma table_holds_hook_calls [simp]:
  "table_holds p (w\<lparr>hook_calls := h\<rparr>) hist = table_holds p w hist"
  by (simp add: table_holds_def)

lemma get_new_sym_addr_same_size:
  assumes inv: "symtab_inv p w" and mo: "mapped_object p w = Some (nm, ob)"
    and unit: "length name + 20 \<le> UFTRACE_PYTHON_SYMTAB_SIZE"
    and fits: "unat (offset (hdr ob)) + (length name + 20) < unat (uftrace_symtab_size p)"
    and res: "get_new_sym_addr name k p w = Inr (a, p', w')"
  shows "p' = p"
proof -
  from get_new_sym_addr_size[OF inv mo res] unit_no_wrap[OF inv mo unit] fits
  have "unat (uftrace_symtab_size p') = unat (uftrace_symtab_size p)"
    by (simp add: word_le_nat_alt)
  then have "uftrace_symtab_size p' = uftrace_symtab_size p" by (simp only: word_unat_eq_iff)
  with get_new_sym_addr_frame[OF res] show ?thesis by simp
qed

lemma test_foo_name:
  "get_python_funcname foo_frame (PyCode (Some ''foo'') (Some ''foo'')) = Some ''mymod.foo''"
  by (simp add: get_python_funcname_def foo_frame_def)

lemma test_foo_enter:
  "\<exists>w'. uftrace_trace_python test_consts (Args foo_frame ''call'' py_none)
            (test_proc\<lparr>first_frame := Some 100\<rparr>) test_started =
          Inr (Trace_Function,
               test_proc\<lparr>first_frame := Some 100, code_tree := RB_Node RB_NULL 20 1 RB_NULL\<rparr>, w')
        \<and> hook_calls w' = [Enter 1 0] \<and>
        table_holds test_proc w' [(''mymod.foo'', True)]"
proof -
  let ?p = "test_proc\<lparr>first_frame := Some 100\<rparr>"
  have inv: "symtab_inv ?p test_started" by (simp add: test_symtab_inv)
  have mo: "mapped_object ?p test_started = Some (''/uftrace-python-1234'', test_shm)"
    by (simp add: test_mapped)
  have th: "table_holds ?p test_started []" by (simp add: test_table_empty)
  have unit: "length ''mymod.foo'' + 20 \<le> UFTRACE_PYTHON_SYMTAB_SIZE"
    by (simp add: UFTRACE_PYTHON_SYMTAB_SIZE_def)
  from get_new_sym_addr_returns[OF inv mo unit, of True]
  obtain a p' w2 where r: "get_new_sym_addr ''mymod.foo'' True ?p test_started = Inr (a, p', w2)"
    by (auto simp: test_started_simps test_proc_simps UFTRACE_PYTHON_SYMTAB_SIZE_def)
  from get_new_sym_addr_table[OF th _ r] have th2: "table_holds p' w2 [(''mymod.foo'', True)]"
    and a: "a = 1" by simp_all
  have "p' = ?p"
    by (rule get_new_sym_addr_same_size[OF inv mo unit _ r])
       (simp add: test_shm_def test_proc_simps)
  with r a have r': "get_new_sym_addr ''mymod.foo'' True ?p test_started = Inr (1, ?p, w2)"
    by simp
  from get_new_sym_addr_frame[OF r'] have hk: "hook_calls w2 = hook_calls test_started"
    and mf: "module_found w2 = module_found test_started"
    using world_frameD(1,2)[where w' = w2 and w = test_started and s = "shm_objects w2"]
    by simp_all
  have ns: "\<not> skipped (Args foo_frame ''call'' py_none) ?p"
    by (simp add: skipped_Args foo_frame_def)
  have "uftrace_trace_python test_consts (Args foo_frame ''call'' py_none) ?p test_started =
          Inr (Trace_Function,
               test_proc\<lparr>first_frame := Some 100, code_tree := RB_Node RB_NULL 20 1 RB_NULL\<rparr>,
               w2\<lparr>hook_calls := hook_calls w2 @ [Enter 1 0]\<rparr>)"
    unfolding trace_python_not_skipped[OF ns]
    by (simp add: trace_event_def convert_function_addr_def Let_def foo_frame_def
          get_python_funcname_def r'[unfolded foo_frame_def] test_proc_simps
          rb_insert_color_def call_hook_def get_trace_function_def mf test_started_simps)
  moreover have "hook_calls (w2\<lparr>hook_calls := hook_calls w2 @ [Enter 1 0]\<rparr>) = [Enter 1 0]"
    by (simp add: hk test_started_simps)
  moreover have "table_holds test_proc (w2\<lparr>hook_calls := hook_calls w2 @ [Enter 1 0]\<rparr>)
                   [(''mymod.foo'', True)]"
    using th2 \<open>p' = ?p\<close> by simp
  ultimately show ?thesis by blast
qed

text \<open>
  The first event of the test process, a second event on its frame, and then the call of
  \<open>mymod.foo\<close> on another frame, which gets address 1 and reaches the enter hook.
\<close>

theorem first_frame_is_skipped_witness:
  "skip_first_frame test_proc \<and> first_frame test_proc = None \<and>
   uftrace_trace_python test_consts (Args root_frame ''call'' py_none) test_proc test_started =
     Inr (Py_None, test_proc\<lparr>first_frame := Some 100\<rparr>, test_started) \<and>
   uftrace_trace_python test_consts (Args root_frame ''return'' py_none)
       (test_proc\<lparr>first_frame := Some 100\<rparr>) test_started =
     Inr (Py_None, test_proc\<lparr>first_frame := Some 100\<rparr>, test_started) \<and>
   (\<exists>p' w'. uftrace_trace_python test_consts (Args foo_frame ''call'' py_none)
               (test_proc\<lparr>first_frame := Some 100\<rparr>) test_started =
             Inr (Trace_Function, p', w') \<and>
            hook_calls w' = hook_calls test_started @ [Enter 1 0] \<and>
            skip_first_frame p' \<and> first_frame p' = Some 100)"
proof -
  let ?p = "test_proc\<lparr>first_frame := Some 100\<rparr>"
  have s0: "skip_first_frame test_proc" and f0: "first_frame test_proc = None"
    by (simp_all add: test_proc_simps)
  have s1: "skip_first_frame ?p" by (simp add: test_proc_simps)
  have f1: "first_frame ?p = Some (frame_addr root_frame)" by (simp add: root_frame_def)
  have ra: "frame_addr root_frame = 100" by (simp add: root_frame_def)
  from first_frame_is_skipped[OF s0, of test_consts root_frame "''call''" py_none test_started] f0
  have e1: "uftrace_trace_python test_consts (Args root_frame ''call'' py_none) test_proc test_started =
     Inr (Py_None, ?p, test_started)"
    by (simp add: ra)
  from first_frame_is_skipped[OF s1, of test_consts root_frame "''return''" py_none test_started] f1
  have e2: "uftrace_trace_python test_consts (Args root_frame ''return'' py_none) ?p test_started =
     Inr (Py_None, ?p, test_started)"
    by blast
  from test_foo_enter obtain w' where
    e3: "uftrace_trace_python test_consts (Args foo_frame ''call'' py_none) ?p test_started =
          Inr (Trace_Function,
               test_proc\<lparr>first_frame := Some 100, code_tree := RB_Node RB_NULL 20 1 RB_NULL\<rparr>, w')"
    and hk: "hook_calls w' = [Enter 1 0]"
    by blast
  from first_frame_is_skipped[OF s1, of test_consts foo_frame "''call''" py_none test_started,
      THEN conjunct2, THEN conjunct2, THEN conjunct2, THEN conjunct2, rule_format, OF e3]
  have "skip_first_frame (test_proc\<lparr>first_frame := Some 100, code_tree := RB_Node RB_NULL 20 1 RB_NULL\<rparr>)
        \<and> first_frame (test_proc\<lparr>first_frame := Some 100, code_tree := RB_Node RB_NULL 20 1 RB_NULL\<rparr>)
            = Some 100"
    by simp
  with e3 hk have "\<exists>p' w'. uftrace_trace_python test_consts (Args foo_frame ''call'' py_none)
               ?p test_started = Inr (Trace_Function, p', w') \<and>
            hook_calls w' = hook_calls test_started @ [Enter 1 0] \<and>
            skip_first_frame p' \<and> first_frame p' = Some 100"
    by (auto simp: test_started_simps)
  with s0 f0 e1 e2 show ?thesis by blast
qed

subsection \<open>The cache of code objects\<close>

lemma rb_find_link_same:
  "rb_find t c = None \<Longrightarrow> rb_find (rb_link_node t c a) c = Some a"
  by (induction t) (auto split: if_splits)

lemma rb_find_link_other:
  "c \<noteq> d \<Longrightarrow> rb_find (rb_link_node t c a) d = rb_find t d"
  by (induction t) auto

lemma rb_find_link_keeps:
  assumes "rb_find t d = Some ad" and "rb_find t c = None"
  shows "rb_find (rb_link_node t c a) d = Some ad"
proof -
  from assms have "c \<noteq> d" by auto
  with assms(1) show ?thesis by (simp add: rb_find_link_other)
qed

lemma rb_keys_link: "set (rb_keys (rb_link_node t c a)) = insert c (set (rb_keys t))"
  by (induction t) auto

lemma rb_find_None_keys: "rb_ordered t \<Longrightarrow> rb_find t c = None \<Longrightarrow> c \<notin> set (rb_keys t)"
  by (induction t) (auto simp: list_all_iff split: if_splits)

lemma rb_ordered_link:
  "rb_ordered t \<Longrightarrow> rb_find t c = None \<Longrightarrow> rb_ordered (rb_link_node t c a)"
  by (induction t) (auto simp: list_all_iff rb_keys_link split: if_splits)

lemma convert_function_addr_hit:
  assumes "identity fr x k = Some c" and "rb_find (code_tree p) c = Some ad"
  shows "convert_function_addr fr x k p w = Inr (unat ad, p, w)"
proof -
  from assms(1) obtain fc where fc: "f_code fr = Some fc" and c: "c = fst (if k then fc else x)"
    by (auto simp: identity_def split: option.splits)
  with assms(2) show ?thesis
    by (cases k) (simp_all add: convert_function_addr_def Let_def)
qed

lemma convert_function_addr_cases:
  assumes "convert_function_addr fr x k p w = Inr (r, p', w')"
  shows "(r = 0 \<and> p' = p \<and> w' = w \<and>
            (identity fr x k = None \<or>
             (\<exists>c. identity fr x k = Some c \<and> rb_find (code_tree p) c = None))) \<or>
         (\<exists>c ad. identity fr x k = Some c \<and> rb_find (code_tree p) c = Some ad \<and>
                  r = unat ad \<and> p' = p \<and> w' = w) \<or>
         (\<exists>c ad. identity fr x k = Some c \<and> rb_find (code_tree p) c = None \<and> r = unat ad \<and>
                  code_tree p' = rb_link_node (code_tree p) c ad)"
proof (cases "f_code fr")
  case None
  with assms show ?thesis by (simp add: convert_function_addr_def identity_def)
next
  case (Some fc)
  let ?c = "fst (if k then fc else x)"
  have id: "identity fr x k = Some ?c" by (simp add: identity_def Some)
  show ?thesis
  proof (cases "rb_find (code_tree p) ?c")
    case (Some ad)
    from convert_function_addr_hit[OF id Some] assms id Some show ?thesis by simp
  next
    case None
    show ?thesis
    proof (cases "if k then get_python_funcname fr (snd (if k then fc else x))
                  else get_c_funcname fr (snd (if k then fc else x))")
      case None': None
      with assms \<open>f_code fr = Some fc\<close> None id show ?thesis
        by (simp add: convert_function_addr_def Let_def)
    next
      case (Some name)
      with assms \<open>f_code fr = Some fc\<close> None obtain ad p1 where
        g: "get_new_sym_addr name k p w = Inr (ad, p1, w')"
        and p': "p' = p1\<lparr>code_tree := rb_link_node (code_tree p1) ?c ad\<rparr>"
        and r: "r = unat ad"
        by (auto simp: convert_function_addr_def Let_def rb_insert_color_def split: sum.splits)
      from get_new_sym_addr_frame[OF g]
      have "p1 = p\<lparr>uftrace_symtab_size := uftrace_symtab_size p1\<rparr>" by simp
      from arg_cong[OF this, of code_tree] have "code_tree p1 = code_tree p" by simp
      with p' r id None show ?thesis by auto
    qed
  qed
qed

text \<open>
  C3. An identity that is in the cache resolves to the address stored for it, and the
  call changes nothing: neither the cache nor the registry (the world is the same, so
  count and offset are). A resolution that returns keeps every address the cache held,
  and leaves its own identity cached with the address it returned, unless no name could
  be computed and it returned 0 without changing anything. So an identity, once it has
  an address, has that address in every later resolution of the process.
\<close>

theorem cached_identity_keeps_its_address:
  "(\<forall>c ad. identity fr x k = Some c \<and> rb_find (code_tree p) c = Some ad \<longrightarrow>
      convert_function_addr fr x k p w = Inr (unat ad, p, w)) \<and>
   (\<forall>r p' w'. convert_function_addr fr x k p w = Inr (r, p', w') \<longrightarrow>
      (\<forall>c ad. rb_find (code_tree p) c = Some ad \<longrightarrow> rb_find (code_tree p') c = Some ad) \<and>
      (rb_ordered (code_tree p) \<longrightarrow> rb_ordered (code_tree p')) \<and>
      (\<forall>c. identity fr x k = Some c \<longrightarrow>
         (\<exists>ad. rb_find (code_tree p') c = Some ad \<and> unat ad = r) \<or>
         (r = 0 \<and> p' = p \<and> w' = w \<and> rb_find (code_tree p) c = None)))"
proof (intro conjI allI impI)
  fix c ad
  assume "identity fr x k = Some c \<and> rb_find (code_tree p) c = Some ad"
  then show "convert_function_addr fr x k p w = Inr (unat ad, p, w)"
    using convert_function_addr_hit by blast
next
  fix r p' w' c ad
  assume res: "convert_function_addr fr x k p w = Inr (r, p', w')"
    and c: "rb_find (code_tree p) c = Some ad"
  from convert_function_addr_cases[OF res] c
  show "rb_find (code_tree p') c = Some ad"
    by (auto simp: rb_find_link_keeps)
next
  fix r p' w'
  assume res: "convert_function_addr fr x k p w = Inr (r, p', w')"
    and o: "rb_ordered (code_tree p)"
  from convert_function_addr_cases[OF res] o
  show "rb_ordered (code_tree p')"
    by (auto simp: rb_ordered_link)
next
  fix r p' w' c
  assume res: "convert_function_addr fr x k p w = Inr (r, p', w')"
    and id: "identity fr x k = Some c"
  from convert_function_addr_cases[OF res] id
  show "(\<exists>ad. rb_find (code_tree p') c = Some ad \<and> unat ad = r) \<or>
        (r = 0 \<and> p' = p \<and> w' = w \<and> rb_find (code_tree p) c = None)"
    by (auto simp: rb_find_link_same)
qed

lemma test_foo_resolve:
  "\<exists>w'. convert_function_addr foo_frame py_none True test_proc test_started =
          Inr (1, test_proc\<lparr>code_tree := RB_Node RB_NULL 20 1 RB_NULL\<rparr>, w')
        \<and> table_holds test_proc w' [(''mymod.foo'', True)]"
proof -
  have unit: "length ''mymod.foo'' + 20 \<le> UFTRACE_PYTHON_SYMTAB_SIZE"
    by (simp add: UFTRACE_PYTHON_SYMTAB_SIZE_def)
  from get_new_sym_addr_returns[OF test_symtab_inv test_mapped unit, of True]
  obtain a p' w2 where r: "get_new_sym_addr ''mymod.foo'' True test_proc test_started = Inr (a, p', w2)"
    by (auto simp: test_started_simps test_proc_simps UFTRACE_PYTHON_SYMTAB_SIZE_def)
  from get_new_sym_addr_table[OF test_table_empty _ r]
  have th2: "table_holds p' w2 [(''mymod.foo'', True)]" and a: "a = 1" by simp_all
  have "p' = test_proc"
    by (rule get_new_sym_addr_same_size[OF test_symtab_inv test_mapped unit _ r])
       (simp add: test_shm_def test_proc_simps)
  with r a th2 have r': "get_new_sym_addr ''mymod.foo'' True test_proc test_started = Inr (1, test_proc, w2)"
    and th3: "table_holds test_proc w2 [(''mymod.foo'', True)]"
    by simp_all
  have "convert_function_addr foo_frame py_none True test_proc test_started =
          Inr (1, test_proc\<lparr>code_tree := RB_Node RB_NULL 20 1 RB_NULL\<rparr>, w2)"
    by (simp add: convert_function_addr_def Let_def foo_frame_def
          get_python_funcname_def r'[unfolded foo_frame_def] test_proc_simps rb_insert_color_def)
  with th3 show ?thesis by blast
qed

text \<open>
  The function \<open>foo\<close> resolved in the test process, from a first frame and then from a
  second frame of the same code object: address 1 both times, and the second call changes
  nothing.
\<close>

theorem cached_identity_witness:
  "\<exists>p1 w1. convert_function_addr foo_frame py_none True test_proc test_started = Inr (1, p1, w1) \<and>
      identity (foo_frame\<lparr>frame_addr := 300\<rparr>) py_none True = Some 20 \<and>
      rb_find (code_tree p1) 20 = Some 1 \<and>
      convert_function_addr (foo_frame\<lparr>frame_addr := 300\<rparr>) py_none True p1 w1 = Inr (1, p1, w1)"
proof -
  from test_foo_resolve obtain w1 where
    r1: "convert_function_addr foo_frame py_none True test_proc test_started =
          Inr (1, test_proc\<lparr>code_tree := RB_Node RB_NULL 20 1 RB_NULL\<rparr>, w1)"
    by blast
  let ?p1 = "test_proc\<lparr>code_tree := RB_Node RB_NULL 20 1 RB_NULL\<rparr>"
  have id: "identity (foo_frame\<lparr>frame_addr := 300\<rparr>) py_none True = Some 20"
    by (simp add: identity_def foo_frame_def)
  have f: "rb_find (code_tree ?p1) 20 = Some 1" by simp
  from cached_identity_keeps_its_address[of "foo_frame\<lparr>frame_addr := 300\<rparr>" py_none True ?p1 w1,
      THEN conjunct1, rule_format, of 20 1] id f
  have "convert_function_addr (foo_frame\<lparr>frame_addr := 300\<rparr>) py_none True ?p1 w1 = Inr (1, ?p1, w1)"
    by simp
  with r1 id f show ?thesis by blast
qed

subsection \<open>Shutdown\<close>

text \<open>
  C5 fails on the code. When the output file cannot be opened, \<^verbatim>\<open>write_symtab\<close> warns and
  returns at line 225, before \<^verbatim>\<open>munmap\<close>, \<^verbatim>\<open>close\<close> and \<^verbatim>\<open>uftrace_shmem_unlink\<close>
  (lines 256-258): in the test process the mapping is still live, the descriptor still
  open and the shared memory object still there.
\<close>

theorem write_symtab_open_failure_keeps_segment:
  "write_symtab test_consts ''uftrace.data'' test_proc (test_started\<lparr>fopen_fails := True\<rparr>) =
     Some (Inr ((), test_proc,
                test_started\<lparr>fopen_fails := True,
                             warnings := [''writing symbol table of python program failed'']\<rparr>)) \<and>
   symtab test_proc = Mapped ''/uftrace-python-1234'' \<and>
   open_fds test_proc (uftrace_shmem_fd test_proc) = Some ''/uftrace-python-1234'' \<and>
   shm_objects (test_started\<lparr>fopen_fails := True,
                             warnings := [''writing symbol table of python program failed'']\<rparr>)
     (uftrace_shmem_name test_proc) = Some test_shm"
  by (simp add: write_symtab_fopen_fails test_proc_simps test_started_simps)

text \<open>When the file opens, the same call releases all three.\<close>

lemma write_symtab_releases:
  "\<exists>p' w'. write_symtab test_consts ''uftrace.data'' test_proc test_started = Some (Inr ((), p', w')) \<and>
      symtab p' = Unmapped ''/uftrace-python-1234'' \<and>
      open_fds p' (uftrace_shmem_fd test_proc) = None \<and>
      shm_objects w' ''/uftrace-python-1234'' = None"
proof -
  have "\<forall>n. 0 < n \<and> n \<le> length (table_text 0 []) \<longrightarrow>
          0 < fwrite_ret test_started n \<and> min n (fwrite_ret test_started n) < 2 ^ 31"
    by simp
  from write_symtab_table[OF test_table_empty test_mapped _ this, of test_consts "''uftrace.data''"]
  show ?thesis by (auto simp: test_started_simps)
qed

text \<open>
  A write that fails is not reported either. \<^verbatim>\<open>fwrite\<close> returns the number of bytes it
  wrote, which is never negative, so the test of line 245 cannot see a failure; and when
  \<^verbatim>\<open>fwrite\<close> writes nothing (the disk is full, say), the loop of lines 242-250 runs again
  with the same \<open>len\<close>, for ever: \<^verbatim>\<open>write_symtab\<close> does not return.
\<close>

lemma copy_loop_stuck:
  assumes "copy_loop fw mem lim buf len out = Some r"
  shows "len = 0 \<or> lim < buf \<or> fw (unat len) \<noteq> 0"
proof (rule copy_loop.raw_induct
         [where P = "\<lambda>fw mem lim buf len out r. len = 0 \<or> lim < buf \<or> fw (unat len) \<noteq> 0",
          OF _ assms])
  fix f :: "(nat \<Rightarrow> nat) \<Rightarrow> (nat \<Rightarrow> char) \<Rightarrow> nat \<Rightarrow> nat \<Rightarrow> u32 \<Rightarrow> string \<Rightarrow> ((error \<times> string) + string) option"
  fix fw mem lim buf len out r
  assume ih: "\<And>fw mem lim buf len out r. f fw mem lim buf len out = Some r \<Longrightarrow>
                len = 0 \<or> lim < buf \<or> fw (unat len) \<noteq> 0"
    and body: "(if len = 0 then Some (Inr out)
      else let n = min (fw (unat len)) (unat len)
           in if lim < buf + n then Some (Inl (Fault, out))
              else let out' = out @ load_bytes mem buf n; sz = (word_of_nat n :: u32)
                   in if sint sz < 0 then Some (Inl (Fatal, out'))
                      else f fw mem lim (buf + n) (len - sz) out') = Some r"
  show "len = 0 \<or> lim < buf \<or> fw (unat len) \<noteq> 0"
  proof (rule ccontr)
    assume "\<not> (len = 0 \<or> lim < buf \<or> fw (unat len) \<noteq> 0)"
    then have a: "len \<noteq> 0" "\<not> lim < buf" "fw (unat len) = 0" by auto
    with body have "f fw mem lim buf len (out @ load_bytes mem buf 0) = Some r"
      by (simp add: Let_def)
    from ih[OF this] a show False by simp
  qed
qed

lemma copy_loop_no_progress:
  assumes "len \<noteq> 0" and "buf \<le> lim" and "fw (unat len) = 0"
  shows "copy_loop fw mem lim buf len out = None"
proof (cases "copy_loop fw mem lim buf len out")
  case None
  then show ?thesis .
next
  case (Some r)
  from copy_loop_stuck[OF Some] assms show ?thesis by simp
qed

lemma write_symtab_no_progress:
  assumes th: "table_holds p w hist"
    and ne: "hist \<noteq> []"
    and fo: "\<not> fopen_fails w"
    and fw: "\<forall>n. fwrite_ret w n = 0"
  shows "write_symtab K dir p w = None"
proof -
  let ?H = UFTRACE_PYTHON_SYMTAB_HDRSZ
  let ?file = "dir @ ''/'' @ SYMTAB_NAME K @ ''.sym''"
  let ?w1 = "w\<lparr>files := (files w)(?file \<mapsto> [])\<rparr>"
  from th have "symtab_inv p w" by (simp add: table_holds_def)
  from symtab_inv_mapped[OF this] obtain nm ob where mo: "mapped_object p w = Some (nm, ob)"
    by blast
  let ?hc = "header_comment K (count (hdr ob))"
  let ?w2 = "if snd ?hc \<noteq> word_of_nat ?H
             then ?w1\<lparr>warnings := warnings ?w1 @ [''symbol header size should be 64'']\<rparr> else ?w1"
  let ?len = "offset (hdr ob) - word_of_nat ?H"
  note t = table_holdsD[OF th mo]
  note i = symtab_invD[OF t(1) mo]
  from mapped_objectD[OF mo] have sy: "symtab p = Mapped nm" and so: "shm_objects w nm = Some ob"
    by simp_all
  have mo1: "mapped_object p ?w1 = Some (nm, ob)"
    by (rule mapped_objectI) (simp_all add: sy so)
  have im: "in_mapping p ob 0 8"
    using i(2,5,6) by (simp add: in_mapping_def UFTRACE_PYTHON_SYMTAB_HDRSZ_def)
  have uH: "unat (word_of_nat ?H :: u32) = ?H"
    by (simp add: UFTRACE_PYTHON_SYMTAB_HDRSZ_def)
  have "(word_of_nat ?H :: u32) \<le> offset (hdr ob)"
    using i(5) by (simp only: word_le_nat_alt uH)
  from unat_sub[OF this] have ulen: "unat ?len = length (table_text 0 hist)"
    using t(3) by (simp only: uH)
  from ne obtain r rs where "hist = r # rs" by (cases hist) auto
  then have "0 < length (table_text 0 hist)" by (simp add: length_sym_line)
  with ulen have l0: "?len \<noteq> 0" by auto
  have fwr: "fwrite_ret ?w2 (unat ?len) = 0" using fw by simp
  have lim: "?H \<le> min (unat (uftrace_symtab_size p)) (shm_len ob)"
    using i(2,5,6) by simp
  have cl: "copy_loop (fwrite_ret ?w2) (bytes ob) (min (unat (uftrace_symtab_size p)) (shm_len ob))
              ?H ?len (fst ?hc) = None"
    by (rule copy_loop_no_progress[where fw = "fwrite_ret ?w2", OF l0 lim fwr])
  show ?thesis
    unfolding write_symtab_def Let_def using fo im
    by (simp only: if_False mo1 option.case prod.case not_not if_True cl) simp
qed

text \<open>
  C9 fails on the code. Outside a uftrace session (\<open>UFTRACE_SHMEM\<close> is not set)
  initialisation does nothing: no shared memory object, no hook address. But the destructor
  calls \<^verbatim>\<open>write_symtab\<close> all the same: where the directory exists, it creates (or empties)
  the symbol file and then reads \<open>symtab->count\<close> through the NULL pointer; where the file
  cannot be opened, it prints a warning.
\<close>

theorem finish_outside_session_faults:
  "PyInit_uftrace_python True proc_init unit_test_world =
     Inr (True, proc_init\<lparr>skip_first_frame := True\<rparr>, unit_test_world) \<and>
   uftrace_trace_python_finish test_consts (proc_init\<lparr>skip_first_frame := True\<rparr>) unit_test_world =
     Some (Inl (Fault, unit_test_world\<lparr>files := [''uftrace.data/python.fake.sym'' \<mapsto> []]\<rparr>)) \<and>
   uftrace_trace_python_finish test_consts (proc_init\<lparr>skip_first_frame := True\<rparr>)
       (unit_test_world\<lparr>fopen_fails := True\<rparr>) =
     Some (Inr ((), proc_init\<lparr>skip_first_frame := True\<rparr>,
                unit_test_world\<lparr>fopen_fails := True,
                                warnings := [''writing symbol table of python program failed'']\<rparr>))"
  by (simp add: PyInit_uftrace_python_def init_uftrace_def uftrace_trace_python_finish_def
        write_symtab_def mapped_object_def proc_init_def test_consts_def Let_def)
     (simp add: unit_test_world_def test_world_def)

lemma init_uftrace_outside_session:
  "environ w ''UFTRACE_SHMEM'' = None \<Longrightarrow> init_uftrace p w = Inr ((), p, w)"
  by (simp add: init_uftrace_def)

subsection \<open>Two processes on one table\<close>

text \<open>The steps, made by a process that runs alone, are \<^verbatim>\<open>get_new_sym_addr\<close>.\<close>

lemma sync_val_compare_and_swap_same:
  "sync_val_compare_and_swap h h new = (new, h)"
  by (simp add: sync_val_compare_and_swap_def)

lemma alloc_steps_alone:
  "alloc_steps 4 name k At_read p w =
     (case get_new_sym_addr name k p w of
        Inl e \<Rightarrow> Inl e
      | Inr (a, p', w') \<Rightarrow> Inr (Returned a, p', w'))"
proof (cases "mapped_object p w")
  case None
  then show ?thesis
    by (simp add: eval_nat_numeral alloc_step_def get_new_sym_addr_def)
next
  case (Some m)
  obtain nm ob where m: "m = (nm, ob)" by (cases m)
  from mapped_objectD[OF Some[unfolded m]]
  have sy: "symtab p = Mapped nm" and so: "shm_objects w nm = Some ob" by simp_all
  show ?thesis
  proof (cases "in_mapping p ob 0 8")
    case False
    with Some m show ?thesis
      by (simp add: eval_nat_numeral alloc_step_def get_new_sym_addr_def)
  next
    case True
    let ?new = "next_hdr (hdr ob) (entry_size name)"
    let ?w1 = "w\<lparr>shm_objects := (shm_objects w)(nm \<mapsto> ob\<lparr>hdr := ?new\<rparr>)\<rparr>"
    have s1: "alloc_step name k At_read p w = Inr (At_cas (hdr ob), p, w)"
      using Some m True by (simp add: alloc_step_def)
    have s2: "alloc_step name k (At_cas (hdr ob)) p w = Inr (At_grow (hdr ob) ?new, p, ?w1)"
      using Some m by (simp add: alloc_step_def Let_def sync_val_compare_and_swap_same)
    have g: "get_new_sym_addr name k p w =
               (case grow_symtab ?new p ?w1 of
                  Inl e \<Rightarrow> Inl e
                | Inr (u, p1, w2) \<Rightarrow> write_entry (hdr ob) ?new name k p1 w2)"
      using Some m True
      by (simp add: get_new_sym_addr_def reserve_alone Let_def split: sum.splits)
    show ?thesis
      unfolding g
      by (simp add: eval_nat_numeral s1 s2)
         (simp add: alloc_step_def split: sum.splits)
  qed
qed

lemma entry_bytes_small:
  "entry_bytes \<lparr>count = 1, offset = 69\<rparr> ''a'' True = ''0000000000000001 T a\<newline>'' @ [NUL]"
  "entry_bytes \<lparr>count = 2, offset = 90\<rparr> ''b'' True = ''0000000000000002 T b\<newline>'' @ [NUL]"
  by (simp_all add: entry_bytes_eq sym_line_small kind_char_def NL_def)

lemmas two_procs_eval =
  alloc_step_def test_mapped mapped_object_def test_proc_simps test_started_simps
  in_mapping_def test_shm_def Let_def next_hdr_def entry_size_def
  sync_val_compare_and_swap_def grow_symtab_def write_entry_def entry_bytes_small
  table_bytes_def UFTRACE_PYTHON_SYMTAB_HDRSZ_def

text \<open>
  C1 fails on the code. Two processes share the table of the test process (a parent and
  the child it forked), the first allocating \<open>a\<close>, the second \<open>b\<close>. The first swaps the
  header from offset 48 to 69 and so holds the bytes 48 to 68; the second swaps it from 69
  to 90 and holds the bytes 69 to 88, and writes its line there. Then the first writes
  its entry: \<^verbatim>\<open>snprintf\<close> stores the 21 characters of the line and a NUL, 22 bytes from
  offset 48, and the NUL lands on byte 69, the first byte of the line of the second
  process. Both calls return, 1 and 2; the table reads line 1, a NUL, and line 2 without
  its first character.
\<close>

theorem nul_overwrites_next_entry:
  "interleave [True, True, False, False]
       (''a'', True) (''b'', True) (At_read, test_proc) (At_read, test_proc) test_started
     = Inr ((At_grow \<lparr>count = 0, offset = 48\<rparr> \<lparr>count = 1, offset = 69\<rparr>, test_proc),
            (At_grow \<lparr>count = 1, offset = 69\<rparr> \<lparr>count = 2, offset = 90\<rparr>, test_proc),
            test_started\<lparr>shm_objects :=
              [''/uftrace-python-1234'' \<mapsto> test_shm\<lparr>hdr := \<lparr>count = 2, offset = 90\<rparr>\<rparr>]\<rparr>) \<and>
   length (entry_bytes \<lparr>count = 1, offset = 69\<rparr> ''a'' True) = 22 \<and>
   (\<exists>w'. interleave [True, True, False, False, False, False]
           (''a'', True) (''b'', True) (At_read, test_proc) (At_read, test_proc) test_started
         = Inr ((At_grow \<lparr>count = 0, offset = 48\<rparr> \<lparr>count = 1, offset = 69\<rparr>, test_proc),
                (Returned 2, test_proc), w') \<and>
        table_bytes w' ''/uftrace-python-1234'' =
          Some (replicate 21 NUL @ ''0000000000000002 T b\<newline>'')) \<and>
   (\<exists>w'. interleave [True, True, False, False, False, False, True, True]
           (''a'', True) (''b'', True) (At_read, test_proc) (At_read, test_proc) test_started
         = Inr ((Returned 1, test_proc), (Returned 2, test_proc), w') \<and>
        table_bytes w' ''/uftrace-python-1234'' =
          Some (''0000000000000001 T a\<newline>'' @ [NUL] @ ''000000000000002 T b\<newline>''))"
proof (intro conjI)
  show "interleave [True, True, False, False]
       (''a'', True) (''b'', True) (At_read, test_proc) (At_read, test_proc) test_started
     = Inr ((At_grow \<lparr>count = 0, offset = 48\<rparr> \<lparr>count = 1, offset = 69\<rparr>, test_proc),
            (At_grow \<lparr>count = 1, offset = 69\<rparr> \<lparr>count = 2, offset = 90\<rparr>, test_proc),
            test_started\<lparr>shm_objects :=
              [''/uftrace-python-1234'' \<mapsto> test_shm\<lparr>hdr := \<lparr>count = 2, offset = 90\<rparr>\<rparr>]\<rparr>)"
    by (simp add: two_procs_eval)
  show "length (entry_bytes \<lparr>count = 1, offset = 69\<rparr> ''a'' True) = 22"
    by (simp add: entry_bytes_small)
  show "\<exists>w'. interleave [True, True, False, False, False, False]
           (''a'', True) (''b'', True) (At_read, test_proc) (At_read, test_proc) test_started
         = Inr ((At_grow \<lparr>count = 0, offset = 48\<rparr> \<lparr>count = 1, offset = 69\<rparr>, test_proc),
                (Returned 2, test_proc), w') \<and>
        table_bytes w' ''/uftrace-python-1234'' =
          Some (replicate 21 NUL @ ''0000000000000002 T b\<newline>'')"
    apply (simp add: two_procs_eval)
    apply (simp add: load_bytes_def store_bytes_def upt_rec NUL_def numeral_eq_Suc)
    done
  show "\<exists>w'. interleave [True, True, False, False, False, False, True, True]
           (''a'', True) (''b'', True) (At_read, test_proc) (At_read, test_proc) test_started
         = Inr ((Returned 1, test_proc), (Returned 2, test_proc), w') \<and>
        table_bytes w' ''/uftrace-python-1234'' =
          Some (''0000000000000001 T a\<newline>'' @ [NUL] @ ''000000000000002 T b\<newline>'')"
    apply (simp add: two_procs_eval)
    apply (simp add: load_bytes_def store_bytes_def upt_rec NUL_def)
    done
qed

end
